theory Spec2Isabelle
  imports Main "HOL-Library.AList"
begin

section \<open>The package initialiser of openfermion.hamiltonians\<close>

text \<open>
  The file \<^verbatim>\<open>src/openfermion/hamiltonians/__init__.py\<close> consists of six statements,
  \<^verbatim>\<open>
  from ._chemical_series import (make_atomic_ring, make_atomic_lattice, make_atom)
  from ._hubbard import fermi_hubbard
  from ._jellium import (dual_basis_kinetic, dual_basis_potential,
                         dual_basis_jellium_model, jellium_model,
                         jordan_wigner_dual_basis_jellium, plane_wave_kinetic,
                         plane_wave_potential)
  from ._mean_field_dwave import mean_field_dwave
  from ._molecular_data import MolecularData, periodic_table
  from ._plane_wave_hamiltonian import (dual_basis_external_potential,
                                        fourier_transform, inverse_fourier_transform,
                                        plane_wave_external_potential,
                                        plane_wave_hamiltonian,
                                        jordan_wigner_dual_basis_hamiltonian,
                                        wigner_seitz_length_scale)
  \<close>
  and nothing else: no \<^verbatim>\<open>try\<close>, no assignment, no \<^verbatim>\<open>__all__\<close>. Its behaviour is
  the behaviour of Python's \<^verbatim>\<open>from . import\<close> statement, run six times in a row on the
  interpreter's state. The six submodules are not part of the source at hand; what finding
  and running one of them does is a parameter of the model: the module it yields or the
  exception it raises, what it does to the rest of the program state, and which of its
  siblings its code imports on the way. The submodules are taken to be plain modules, as
  the names imported from them suggest: an attribute of a module is an entry of its dict.
\<close>

subsection \<open>The file\<close>

type_synonym name = string

text \<open>The six statements of the file, in textual order: the submodule and the names imported from it.\<close>

definition hamiltonians_init :: "(name \<times> name list) list" where
  "hamiltonians_init =
     [(''_chemical_series'', [''make_atomic_ring'', ''make_atomic_lattice'', ''make_atom'']),
      (''_hubbard'', [''fermi_hubbard'']),
      (''_jellium'', [''dual_basis_kinetic'', ''dual_basis_potential'',
                      ''dual_basis_jellium_model'', ''jellium_model'',
                      ''jordan_wigner_dual_basis_jellium'', ''plane_wave_kinetic'',
                      ''plane_wave_potential'']),
      (''_mean_field_dwave'', [''mean_field_dwave'']),
      (''_molecular_data'', [''MolecularData'', ''periodic_table'']),
      (''_plane_wave_hamiltonian'', [''dual_basis_external_potential'', ''fourier_transform'',
                      ''inverse_fourier_transform'', ''plane_wave_external_potential'',
                      ''plane_wave_hamiltonian'', ''jordan_wigner_dual_basis_hamiltonian'',
                      ''wigner_seitz_length_scale''])]"

definition submodule_names :: "name list" where
  "submodule_names = map fst hamiltonians_init"

definition imported_names :: "name list" where
  "imported_names = concat (map snd hamiltonians_init)"

text \<open>The list of re-exported names as the specification writes it in its section 6.\<close>

definition listed_names :: "name list" where
  "listed_names =
     [''make_atomic_ring'', ''make_atomic_lattice'', ''make_atom'', ''fermi_hubbard'',
      ''dual_basis_kinetic'', ''dual_basis_potential'', ''dual_basis_jellium_model'',
      ''jellium_model'', ''jordan_wigner_dual_basis_jellium'', ''plane_wave_kinetic'',
      ''plane_wave_potential'', ''mean_field_dwave'', ''MolecularData'', ''periodic_table'',
      ''dual_basis_external_potential'', ''fourier_transform'', ''inverse_fourier_transform'',
      ''plane_wave_external_potential'', ''plane_wave_hamiltonian'',
      ''jordan_wigner_dual_basis_hamiltonian'', ''wigner_seitz_length_scale'']"

subsection \<open>Interpreter state\<close>

text \<open>A namespace is a Python dict from names to objects, in insertion order.\<close>

type_synonym 'o namespace = "(name \<times> 'o) list"

text \<open>
  Objects are references of an arbitrary type \<open>'o\<close>: two objects are identical (\<^verbatim>\<open>is\<close>)
  when the references are equal. A module is its own object together with its
  \<^verbatim>\<open>__dict__\<close>; an attribute of a module is looked up in that dict.
\<close>

record 'o pymodule =
  mod_obj :: 'o
  mod_dict :: "'o namespace"

text \<open>
  An exception is either one that finding or running a submodule raised (\<open>Raised\<close>, with
  the exception as it was raised), or the \<^verbatim>\<open>ImportError\<close> of the interpreter, "cannot
  import name n from m", for a name that the module it is imported from does not have.
\<close>

datatype 'e exn = Raised 'e | ImportError name name

text \<open>
  The order of what happens during a load is recorded as a list of events: \<open>Init sub\<close>
  when the initialisation of the submodule \<open>sub\<close> is complete and it is entered into the
  module cache, \<open>Bind n\<close> when the file binds the name \<open>n\<close>.
\<close>

datatype event = Init name | Bind name

text \<open>
  The part of the interpreter that the file touches. \<open>sys_modules\<close> is the module cache
  \<^verbatim>\<open>sys.modules\<close> as far as the submodules of this package go, keyed by absolute module
  names; \<open>pkg_loaded\<close> says whether the package itself has an entry in \<^verbatim>\<open>sys.modules\<close>,
  and \<open>pkg_dict\<close> is the \<^verbatim>\<open>__dict__\<close> of the package's module object, which is the global
  namespace of the file while it runs. \<open>world\<close> is all the rest of the program state: the
  file system with its bytecode caches, the console, the parent package and every other
  module with its entry in \<^verbatim>\<open>sys.modules\<close>. \<open>events\<close> is the record of submodule
  initialisations and name bindings so far.
\<close>

record ('o, 'w) interp =
  sys_modules :: "(name \<times> 'o pymodule) list"
  pkg_loaded :: bool
  pkg_dict :: "'o namespace"
  world :: 'w
  events :: "event list"

text \<open>
  The environment of the file. \<open>find_and_load n s\<close> finds the module with the absolute
  name \<open>n\<close> and runs its code in the interpreter \<open>s\<close>. It gives three things: the
  exception that is raised or the initialised module; the world that finding the module
  and running its code leave behind, with all they read, write and import; and the
  siblings, submodules of this package, that the code imported on the way, in the
  order in which their initialisation was completed, each with the module it is
  initialised to if it is not in the module cache yet. (A sibling listed here was
  initialised before the exception, if there is one.) \<open>module_attr\<close> gives the objects
  that the import system stores in a new module under \<^verbatim>\<open>__name__\<close>, \<^verbatim>\<open>__file__\<close> and
  so on. \<open>enter_package\<close> is what the import system does to the world before the file
  runs: it imports the parent package, finds the file, and reads or writes its bytecode
  cache. \<open>leave_package\<close> is what it does after the file has run without raising: it
  binds the package as an attribute of its parent.
\<close>

record ('o, 'e, 'w) env =
  find_and_load :: "name \<Rightarrow> ('o, 'w) interp \<Rightarrow> ('e + 'o pymodule) \<times> 'w \<times> (name \<times> 'o pymodule) list"
  module_attr :: "name \<Rightarrow> 'o"
  enter_package :: "'w \<Rightarrow> 'w"
  leave_package :: "'w \<Rightarrow> 'w"

type_synonym ('o, 'e, 'w) outcome = "('e exn \<times> ('o, 'w) interp) + ('o, 'w) interp"

subsection \<open>The import statement\<close>

definition package_name :: name where
  "package_name = ''openfermion.hamiltonians''"

text \<open>A relative import at level one resolves against the package's own name.\<close>

definition absolute_name :: "name \<Rightarrow> name" where
  "absolute_name sub = package_name @ ''.'' @ sub"

text \<open>Whether a submodule of the package is in the module cache.\<close>

definition cached :: "('o, 'w) interp \<Rightarrow> name \<Rightarrow> bool" where
  "cached s sub = (map_of (sys_modules s) (absolute_name sub) \<noteq> None)"

text \<open>
  When the initialisation of a submodule is complete, the import system has the module in
  \<^verbatim>\<open>sys.modules\<close> and binds it as an attribute of the parent package under its last
  name component.
\<close>

definition enter_module :: "name \<Rightarrow> 'o pymodule \<Rightarrow> ('o, 'w) interp \<Rightarrow> ('o, 'w) interp" where
  "enter_module k m s =
     s\<lparr>sys_modules := sys_modules s @ [(absolute_name k, m)],
       pkg_dict := AList.update k (mod_obj m) (pkg_dict s),
       events := events s @ [Init k]\<rparr>"

text \<open>
  The siblings that the code of the submodule \<open>sub\<close> imported, one after the other. A
  sibling that is in the module cache already is found there and nothing happens; so is
  \<open>sub\<close> itself, which is being initialised. The model follows the six submodules of
  the file; any other module that the code imports belongs to the world.
\<close>

fun enter_siblings ::
  "name \<Rightarrow> (name \<times> 'o pymodule) list \<Rightarrow> ('o, 'w) interp \<Rightarrow> ('o, 'w) interp"
where
  "enter_siblings sub [] s = s"
| "enter_siblings sub ((k, m) # rest) s =
     enter_siblings sub rest
       (if k \<in> set submodule_names \<and> k \<noteq> sub \<and> \<not> cached s k then enter_module k m s else s)"

text \<open>
  Importing a submodule. A module found in \<^verbatim>\<open>sys.modules\<close> is returned as it is and
  nothing else happens: in particular it is not bound to the package again (in CPython
  the binding to the parent is the last step of loading a module that was not in
  \<^verbatim>\<open>sys.modules\<close>). Otherwise the module is found and its code runs, which may import
  siblings. If the code raises, the exception leaves the statement as it is, and the
  module is not in the cache; if not, the module is entered.
\<close>

definition import_submodule ::
  "('o, 'e, 'w) env \<Rightarrow> name \<Rightarrow> ('o, 'w) interp \<Rightarrow> ('e exn \<times> ('o, 'w) interp) + ('o pymodule \<times> ('o, 'w) interp)"
where
  "import_submodule env sub s =
     (case map_of (sys_modules s) (absolute_name sub) of
        Some m \<Rightarrow> Inr (m, s)
      | None \<Rightarrow>
          (case find_and_load env (absolute_name sub) s of
             (Inl e, w, sib) \<Rightarrow> Inl (Raised e, (enter_siblings sub sib s)\<lparr>world := w\<rparr>)
           | (Inr m, w, sib) \<Rightarrow>
               Inr (m, (enter_module sub m (enter_siblings sub sib s))\<lparr>world := w\<rparr>)))"

text \<open>
  The names of the statement are fetched from the module and stored in the global
  namespace one after the other, in the order written. The first name the module does not
  have ends the statement (\<open>Inl\<close>, with that name), and the names before it stay bound.
\<close>

fun bind_names ::
  "'o pymodule \<Rightarrow> name list \<Rightarrow> ('o, 'w) interp \<Rightarrow> (name \<times> ('o, 'w) interp) + ('o, 'w) interp"
where
  "bind_names m [] s = Inr s"
| "bind_names m (n # ns) s =
     (case map_of (mod_dict m) n of
        None \<Rightarrow> Inl (n, s)
      | Some v \<Rightarrow>
          bind_names m ns
            (s\<lparr>pkg_dict := AList.update n v (pkg_dict s), events := events s @ [Bind n]\<rparr>))"

text \<open>
  \<^verbatim>\<open>from .sub import (n1, ..., nk)\<close>: import the submodule, then bind the names; a name
  the module does not have raises \<^verbatim>\<open>ImportError\<close>.
\<close>

definition from_import ::
  "('o, 'e, 'w) env \<Rightarrow> name \<Rightarrow> name list \<Rightarrow> ('o, 'w) interp \<Rightarrow> ('o, 'e, 'w) outcome"
where
  "from_import env sub ns s =
     (case import_submodule env sub s of
        Inl x \<Rightarrow> Inl x
      | Inr (m, s') \<Rightarrow>
          (case bind_names m ns s' of
             Inl (n, t) \<Rightarrow> Inl (ImportError n (absolute_name sub), t)
           | Inr t \<Rightarrow> Inr t))"

subsection \<open>Running the file\<close>

text \<open>Statements run in sequence; an exception ends the run, as nothing in the file catches it.\<close>

fun exec_imports ::
  "('o, 'e, 'w) env \<Rightarrow> (name \<times> name list) list \<Rightarrow> ('o, 'w) interp \<Rightarrow> ('o, 'e, 'w) outcome"
where
  "exec_imports env [] s = Inr s"
| "exec_imports env ((sub, ns) # rest) s =
     (case from_import env sub ns s of
        Inl x \<Rightarrow> Inl x
      | Inr s' \<Rightarrow> exec_imports env rest s')"

definition exec_body :: "('o, 'e, 'w) env \<Rightarrow> ('o, 'w) interp \<Rightarrow> ('o, 'e, 'w) outcome" where
  "exec_body env s = exec_imports env hamiltonians_init s"

subsection \<open>Importing the package\<close>

text \<open>The attributes every new package module has before its code runs (CPython 3).\<close>

definition module_attrs :: "name list" where
  "module_attrs = [''__name__'', ''__doc__'', ''__package__'', ''__loader__'', ''__spec__'',
                   ''__path__'', ''__file__'', ''__cached__'', ''__builtins__'']"

definition new_module_dict :: "('o, 'e, 'w) env \<Rightarrow> 'o namespace" where
  "new_module_dict env = map (\<lambda>n. (n, module_attr env n)) module_attrs"

text \<open>
  \<^verbatim>\<open>import openfermion.hamiltonians\<close>: a package found in \<^verbatim>\<open>sys.modules\<close> is returned
  and its code does not run again. Otherwise the import system does its work for the
  package (\<open>enter_package\<close>), a new module is entered into \<^verbatim>\<open>sys.modules\<close> and the file
  runs in its namespace. If the file raises, the entry is removed again and the exception
  goes to the importer; if not, the package is bound on its parent (\<open>leave_package\<close>).
\<close>

definition new_package :: "('o, 'e, 'w) env \<Rightarrow> ('o, 'w) interp \<Rightarrow> ('o, 'w) interp" where
  "new_package env s =
     s\<lparr>pkg_loaded := True, pkg_dict := new_module_dict env,
       world := enter_package env (world s)\<rparr>"

definition import_package :: "('o, 'e, 'w) env \<Rightarrow> ('o, 'w) interp \<Rightarrow> ('o, 'e, 'w) outcome" where
  "import_package env s =
     (if pkg_loaded s then Inr s
      else
        (case exec_body env (new_package env s) of
           Inl (x, s') \<Rightarrow> Inl (x, s'\<lparr>pkg_loaded := False\<rparr>)
         | Inr s' \<Rightarrow> Inr (s'\<lparr>world := leave_package env (world s')\<rparr>)))"

text \<open>Importing the package \<open>k\<close> times in a row.\<close>

fun import_times :: "('o, 'e, 'w) env \<Rightarrow> nat \<Rightarrow> ('o, 'w) interp \<Rightarrow> ('o, 'e, 'w) outcome" where
  "import_times env 0 s = Inr s"
| "import_times env (Suc k) s =
     (case import_package env s of
        Inl x \<Rightarrow> Inl x
      | Inr s' \<Rightarrow> import_times env k s')"

text \<open>
  \<^verbatim>\<open>from openfermion.hamiltonians import *\<close>: without an \<^verbatim>\<open>__all__\<close> in the namespace
  the names taken are those that do not begin with an underscore, in the order of the
  dict. With an \<^verbatim>\<open>__all__\<close> the names are those that object lists, which the model does
  not look into (\<open>None\<close>).
\<close>

definition public_name :: "name \<Rightarrow> bool" where
  "public_name n = (case n of [] \<Rightarrow> True | c # _ \<Rightarrow> c \<noteq> CHR ''_'')"

definition star_names :: "'o namespace \<Rightarrow> name list option" where
  "star_names d =
     (if ''__all__'' \<in> set (map fst d) then None
      else Some (filter public_name (map fst d)))"

subsection \<open>Notions for stating the properties\<close>

text \<open>All names a list of statements binds itself.\<close>

definition bound_names :: "(name \<times> name list) list \<Rightarrow> name list" where
  "bound_names stmts = concat (map snd stmts)"

text \<open>The state an outcome ends in, raised or not.\<close>

definition final :: "('o, 'e, 'w) outcome \<Rightarrow> ('o, 'w) interp" where
  "final r = (case r of Inl (x, s) \<Rightarrow> s | Inr s \<Rightarrow> s)"

fun is_init :: "event \<Rightarrow> bool" where
  "is_init (Init sub) = True"
| "is_init (Bind n) = False"

text \<open>The submodules whose initialisation a list of events records, in order.\<close>

fun init_names :: "event list \<Rightarrow> name list" where
  "init_names [] = []"
| "init_names (Init sub # evs) = sub # init_names evs"
| "init_names (Bind n # evs) = init_names evs"

text \<open>
  The steps that a run of statements is made of, as a relation between the state a run
  starts in and the states it passes through: a submodule that is not cached is entered;
  one of the names in \<open>N\<close> is bound; the code of a module is run and leaves its world.
\<close>

inductive evolves ::
  "('o, 'e, 'w) env \<Rightarrow> name set \<Rightarrow> ('o, 'w) interp \<Rightarrow> ('o, 'w) interp \<Rightarrow> bool"
  for env :: "('o, 'e, 'w) env" and N :: "name set" and s :: "('o, 'w) interp"
where
  start: "evolves env N s s"
| enter: "evolves env N s t \<Longrightarrow> k \<in> set submodule_names \<Longrightarrow> \<not> cached t k \<Longrightarrow>
          evolves env N s (enter_module k m t)"
| bind: "evolves env N s t \<Longrightarrow> n \<in> N \<Longrightarrow>
         evolves env N s (t\<lparr>pkg_dict := AList.update n v (pkg_dict t), events := events t @ [Bind n]\<rparr>)"
| run: "evolves env N s t \<Longrightarrow> find_and_load env a t' = (r, w, sib) \<Longrightarrow> world t' = world t \<Longrightarrow>
        evolves env N s (t\<lparr>world := w\<rparr>)"

subsection \<open>Example environments\<close>

text \<open>
  Objects are numbered. Every submodule has the names the file imports from it;
  \<^verbatim>\<open>_hubbard\<close> has one public name more, which the file does not import. The code of
  \<^verbatim>\<open>_chemical_series\<close> imports its sibling \<^verbatim>\<open>_molecular_data\<close>. The world counts
  the effects on it: each run of a module's code and each step of the import system for
  the package adds one.
\<close>

definition example_modules :: "(name \<times> nat pymodule) list" where
  "example_modules =
     [(''openfermion.hamiltonians._chemical_series'',
        \<lparr>mod_obj = 100,
         mod_dict = [(''make_atomic_ring'', 101), (''make_atomic_lattice'', 102),
                     (''make_atom'', 103)]\<rparr>),
      (''openfermion.hamiltonians._hubbard'',
        \<lparr>mod_obj = 200,
         mod_dict = [(''up_index'', 201), (''fermi_hubbard'', 202)]\<rparr>),
      (''openfermion.hamiltonians._jellium'',
        \<lparr>mod_obj = 300,
         mod_dict = [(''dual_basis_kinetic'', 301), (''dual_basis_potential'', 302),
                     (''dual_basis_jellium_model'', 303), (''jellium_model'', 304),
                     (''jordan_wigner_dual_basis_jellium'', 305), (''plane_wave_kinetic'', 306),
                     (''plane_wave_potential'', 307)]\<rparr>),
      (''openfermion.hamiltonians._mean_field_dwave'',
        \<lparr>mod_obj = 400, mod_dict = [(''mean_field_dwave'', 401)]\<rparr>),
      (''openfermion.hamiltonians._molecular_data'',
        \<lparr>mod_obj = 500,
         mod_dict = [(''periodic_table'', 501), (''MolecularData'', 502)]\<rparr>),
      (''openfermion.hamiltonians._plane_wave_hamiltonian'',
        \<lparr>mod_obj = 600,
         mod_dict = [(''dual_basis_external_potential'', 601), (''fourier_transform'', 602),
                     (''inverse_fourier_transform'', 603),
                     (''plane_wave_external_potential'', 604),
                     (''plane_wave_hamiltonian'', 605),
                     (''jordan_wigner_dual_basis_hamiltonian'', 606),
                     (''wigner_seitz_length_scale'', 607)]\<rparr>)]"

text \<open>The siblings that the code of a module imports.\<close>

definition example_siblings :: "name \<Rightarrow> (name \<times> nat pymodule) list" where
  "example_siblings a =
     (if a = ''openfermion.hamiltonians._chemical_series''
      then [(''_molecular_data'',
             \<lparr>mod_obj = 500,
              mod_dict = [(''periodic_table'', 501), (''MolecularData'', 502)]\<rparr>)]
      else [])"

definition example_env :: "(nat, string, nat) env" where
  "example_env =
     \<lparr>find_and_load = (\<lambda>a s. case map_of example_modules a of
                                 None \<Rightarrow> (Inl ''ModuleNotFoundError'', world s, [])
                               | Some m \<Rightarrow> (Inr m, Suc (world s), example_siblings a)),
      module_attr = (\<lambda>n. 0),
      enter_package = Suc,
      leave_package = Suc\<rparr>"

text \<open>The same environment, except that the code of \<^verbatim>\<open>_jellium\<close> raises.\<close>

definition broken_env :: "(nat, string, nat) env" where
  "broken_env =
     \<lparr>find_and_load = (\<lambda>a s. if a = ''openfermion.hamiltonians._jellium''
                               then (Inl ''boom'', Suc (world s), [])
                               else find_and_load example_env a s),
      module_attr = (\<lambda>n. 0),
      enter_package = Suc,
      leave_package = Suc\<rparr>"

text \<open>The same environment, except that \<^verbatim>\<open>_hubbard\<close> does not define \<^verbatim>\<open>fermi_hubbard\<close>.\<close>

definition missing_env :: "(nat, string, nat) env" where
  "missing_env =
     \<lparr>find_and_load = (\<lambda>a s. if a = ''openfermion.hamiltonians._hubbard''
                               then (Inr \<lparr>mod_obj = 200, mod_dict = [(''up_index'', 201)]\<rparr>,
                                     Suc (world s), [])
                               else find_and_load example_env a s),
      module_attr = (\<lambda>n. 0),
      enter_package = Suc,
      leave_package = Suc\<rparr>"

text \<open>An interpreter that has imported nothing yet, and one that differs in the world.\<close>

definition fresh_interp :: "(nat, nat) interp" where
  "fresh_interp = \<lparr>sys_modules = [], pkg_loaded = False, pkg_dict = [], world = 0, events = []\<rparr>"

definition other_interp :: "(nat, nat) interp" where
  "other_interp = \<lparr>sys_modules = [], pkg_loaded = False, pkg_dict = [], world = 40, events = []\<rparr>"

text \<open>
  The interpreter after the package is imported in \<open>example_env\<close>, from \<open>fresh_interp\<close>
  and from \<open>other_interp\<close>. The submodule \<^verbatim>\<open>_molecular_data\<close> is initialised first, from within
  \<^verbatim>\<open>_chemical_series\<close>; when its own statement runs it is found in the module cache.
\<close>

definition example_loaded :: "(nat, nat) interp" where
  "example_loaded =
     \<lparr>sys_modules =
        [(''openfermion.hamiltonians._molecular_data'', \<lparr>mod_obj = 500,
         mod_dict = [(''periodic_table'', 501), (''MolecularData'', 502)]\<rparr>),
         (''openfermion.hamiltonians._chemical_series'', \<lparr>mod_obj = 100,
         mod_dict = [(''make_atomic_ring'', 101), (''make_atomic_lattice'', 102),
         (''make_atom'', 103)]\<rparr>), (''openfermion.hamiltonians._hubbard'',
         \<lparr>mod_obj = 200, mod_dict = [(''up_index'', 201),
         (''fermi_hubbard'', 202)]\<rparr>), (''openfermion.hamiltonians._jellium'',
         \<lparr>mod_obj = 300, mod_dict = [(''dual_basis_kinetic'', 301),
         (''dual_basis_potential'', 302), (''dual_basis_jellium_model'', 303),
         (''jellium_model'', 304), (''jordan_wigner_dual_basis_jellium'', 305),
         (''plane_wave_kinetic'', 306), (''plane_wave_potential'', 307)]\<rparr>),
         (''openfermion.hamiltonians._mean_field_dwave'', \<lparr>mod_obj = 400,
         mod_dict = [(''mean_field_dwave'', 401)]\<rparr>),
         (''openfermion.hamiltonians._plane_wave_hamiltonian'', \<lparr>mod_obj = 600,
         mod_dict = [(''dual_basis_external_potential'', 601), (''fourier_transform'', 602),
         (''inverse_fourier_transform'', 603), (''plane_wave_external_potential'', 604),
         (''plane_wave_hamiltonian'', 605), (''jordan_wigner_dual_basis_hamiltonian'', 606),
         (''wigner_seitz_length_scale'', 607)]\<rparr>)],
      pkg_loaded = True,
      pkg_dict =
        [(''__name__'', 0), (''__doc__'', 0), (''__package__'', 0), (''__loader__'', 0),
         (''__spec__'', 0), (''__path__'', 0), (''__file__'', 0), (''__cached__'', 0),
         (''__builtins__'', 0), (''_molecular_data'', 500), (''_chemical_series'', 100),
         (''make_atomic_ring'', 101), (''make_atomic_lattice'', 102), (''make_atom'', 103),
         (''_hubbard'', 200), (''fermi_hubbard'', 202), (''_jellium'', 300),
         (''dual_basis_kinetic'', 301), (''dual_basis_potential'', 302),
         (''dual_basis_jellium_model'', 303), (''jellium_model'', 304),
         (''jordan_wigner_dual_basis_jellium'', 305), (''plane_wave_kinetic'', 306),
         (''plane_wave_potential'', 307), (''_mean_field_dwave'', 400),
         (''mean_field_dwave'', 401), (''MolecularData'', 502), (''periodic_table'', 501),
         (''_plane_wave_hamiltonian'', 600), (''dual_basis_external_potential'', 601),
         (''fourier_transform'', 602), (''inverse_fourier_transform'', 603),
         (''plane_wave_external_potential'', 604), (''plane_wave_hamiltonian'', 605),
         (''jordan_wigner_dual_basis_hamiltonian'', 606),
         (''wigner_seitz_length_scale'', 607)],
      world = 7,
      events =
        [Init ''_molecular_data'', Init ''_chemical_series'', Bind ''make_atomic_ring'',
         Bind ''make_atomic_lattice'', Bind ''make_atom'', Init ''_hubbard'',
         Bind ''fermi_hubbard'', Init ''_jellium'', Bind ''dual_basis_kinetic'',
         Bind ''dual_basis_potential'', Bind ''dual_basis_jellium_model'',
         Bind ''jellium_model'', Bind ''jordan_wigner_dual_basis_jellium'',
         Bind ''plane_wave_kinetic'', Bind ''plane_wave_potential'',
         Init ''_mean_field_dwave'', Bind ''mean_field_dwave'', Bind ''MolecularData'',
         Bind ''periodic_table'', Init ''_plane_wave_hamiltonian'',
         Bind ''dual_basis_external_potential'', Bind ''fourier_transform'',
         Bind ''inverse_fourier_transform'', Bind ''plane_wave_external_potential'',
         Bind ''plane_wave_hamiltonian'', Bind ''jordan_wigner_dual_basis_hamiltonian'',
         Bind ''wigner_seitz_length_scale'']\<rparr>"

definition other_loaded :: "(nat, nat) interp" where
  "other_loaded =
     \<lparr>sys_modules =
        [(''openfermion.hamiltonians._molecular_data'', \<lparr>mod_obj = 500,
         mod_dict = [(''periodic_table'', 501), (''MolecularData'', 502)]\<rparr>),
         (''openfermion.hamiltonians._chemical_series'', \<lparr>mod_obj = 100,
         mod_dict = [(''make_atomic_ring'', 101), (''make_atomic_lattice'', 102),
         (''make_atom'', 103)]\<rparr>), (''openfermion.hamiltonians._hubbard'',
         \<lparr>mod_obj = 200, mod_dict = [(''up_index'', 201),
         (''fermi_hubbard'', 202)]\<rparr>), (''openfermion.hamiltonians._jellium'',
         \<lparr>mod_obj = 300, mod_dict = [(''dual_basis_kinetic'', 301),
         (''dual_basis_potential'', 302), (''dual_basis_jellium_model'', 303),
         (''jellium_model'', 304), (''jordan_wigner_dual_basis_jellium'', 305),
         (''plane_wave_kinetic'', 306), (''plane_wave_potential'', 307)]\<rparr>),
         (''openfermion.hamiltonians._mean_field_dwave'', \<lparr>mod_obj = 400,
         mod_dict = [(''mean_field_dwave'', 401)]\<rparr>),
         (''openfermion.hamiltonians._plane_wave_hamiltonian'', \<lparr>mod_obj = 600,
         mod_dict = [(''dual_basis_external_potential'', 601), (''fourier_transform'', 602),
         (''inverse_fourier_transform'', 603), (''plane_wave_external_potential'', 604),
         (''plane_wave_hamiltonian'', 605), (''jordan_wigner_dual_basis_hamiltonian'', 606),
         (''wigner_seitz_length_scale'', 607)]\<rparr>)],
      pkg_loaded = True,
      pkg_dict =
        [(''__name__'', 0), (''__doc__'', 0), (''__package__'', 0), (''__loader__'', 0),
         (''__spec__'', 0), (''__path__'', 0), (''__file__'', 0), (''__cached__'', 0),
         (''__builtins__'', 0), (''_molecular_data'', 500), (''_chemical_series'', 100),
         (''make_atomic_ring'', 101), (''make_atomic_lattice'', 102), (''make_atom'', 103),
         (''_hubbard'', 200), (''fermi_hubbard'', 202), (''_jellium'', 300),
         (''dual_basis_kinetic'', 301), (''dual_basis_potential'', 302),
         (''dual_basis_jellium_model'', 303), (''jellium_model'', 304),
         (''jordan_wigner_dual_basis_jellium'', 305), (''plane_wave_kinetic'', 306),
         (''plane_wave_potential'', 307), (''_mean_field_dwave'', 400),
         (''mean_field_dwave'', 401), (''MolecularData'', 502), (''periodic_table'', 501),
         (''_plane_wave_hamiltonian'', 600), (''dual_basis_external_potential'', 601),
         (''fourier_transform'', 602), (''inverse_fourier_transform'', 603),
         (''plane_wave_external_potential'', 604), (''plane_wave_hamiltonian'', 605),
         (''jordan_wigner_dual_basis_hamiltonian'', 606),
         (''wigner_seitz_length_scale'', 607)],
      world = 47,
      events =
        [Init ''_molecular_data'', Init ''_chemical_series'', Bind ''make_atomic_ring'',
         Bind ''make_atomic_lattice'', Bind ''make_atom'', Init ''_hubbard'',
         Bind ''fermi_hubbard'', Init ''_jellium'', Bind ''dual_basis_kinetic'',
         Bind ''dual_basis_potential'', Bind ''dual_basis_jellium_model'',
         Bind ''jellium_model'', Bind ''jordan_wigner_dual_basis_jellium'',
         Bind ''plane_wave_kinetic'', Bind ''plane_wave_potential'',
         Init ''_mean_field_dwave'', Bind ''mean_field_dwave'', Bind ''MolecularData'',
         Bind ''periodic_table'', Init ''_plane_wave_hamiltonian'',
         Bind ''dual_basis_external_potential'', Bind ''fourier_transform'',
         Bind ''inverse_fourier_transform'', Bind ''plane_wave_external_potential'',
         Bind ''plane_wave_hamiltonian'', Bind ''jordan_wigner_dual_basis_hamiltonian'',
         Bind ''wigner_seitz_length_scale'']\<rparr>"

text \<open>
  The interpreter after the import of the package has failed in \<open>broken_env\<close>: three
  submodules are in the module cache, the package is not.
\<close>

definition failed_interp :: "(nat, nat) interp" where
  "failed_interp =
     \<lparr>sys_modules =
        [(''openfermion.hamiltonians._molecular_data'', \<lparr>mod_obj = 500,
         mod_dict = [(''periodic_table'', 501), (''MolecularData'', 502)]\<rparr>),
         (''openfermion.hamiltonians._chemical_series'', \<lparr>mod_obj = 100,
         mod_dict = [(''make_atomic_ring'', 101), (''make_atomic_lattice'', 102),
         (''make_atom'', 103)]\<rparr>), (''openfermion.hamiltonians._hubbard'',
         \<lparr>mod_obj = 200, mod_dict = [(''up_index'', 201),
         (''fermi_hubbard'', 202)]\<rparr>)],
      pkg_loaded = False,
      pkg_dict =
        [(''__name__'', 0), (''__doc__'', 0), (''__package__'', 0), (''__loader__'', 0),
         (''__spec__'', 0), (''__path__'', 0), (''__file__'', 0), (''__cached__'', 0),
         (''__builtins__'', 0), (''_molecular_data'', 500), (''_chemical_series'', 100),
         (''make_atomic_ring'', 101), (''make_atomic_lattice'', 102), (''make_atom'', 103),
         (''_hubbard'', 200), (''fermi_hubbard'', 202)],
      world = 4,
      events =
        [Init ''_molecular_data'', Init ''_chemical_series'', Bind ''make_atomic_ring'',
         Bind ''make_atomic_lattice'', Bind ''make_atom'', Init ''_hubbard'',
         Bind ''fermi_hubbard'']\<rparr>"

text \<open>
  The interpreter after the package is then imported with success, in \<open>example_env\<close>.
\<close>

definition retried_interp :: "(nat, nat) interp" where
  "retried_interp =
     \<lparr>sys_modules =
        [(''openfermion.hamiltonians._molecular_data'', \<lparr>mod_obj = 500,
         mod_dict = [(''periodic_table'', 501), (''MolecularData'', 502)]\<rparr>),
         (''openfermion.hamiltonians._chemical_series'', \<lparr>mod_obj = 100,
         mod_dict = [(''make_atomic_ring'', 101), (''make_atomic_lattice'', 102),
         (''make_atom'', 103)]\<rparr>), (''openfermion.hamiltonians._hubbard'',
         \<lparr>mod_obj = 200, mod_dict = [(''up_index'', 201),
         (''fermi_hubbard'', 202)]\<rparr>), (''openfermion.hamiltonians._jellium'',
         \<lparr>mod_obj = 300, mod_dict = [(''dual_basis_kinetic'', 301),
         (''dual_basis_potential'', 302), (''dual_basis_jellium_model'', 303),
         (''jellium_model'', 304), (''jordan_wigner_dual_basis_jellium'', 305),
         (''plane_wave_kinetic'', 306), (''plane_wave_potential'', 307)]\<rparr>),
         (''openfermion.hamiltonians._mean_field_dwave'', \<lparr>mod_obj = 400,
         mod_dict = [(''mean_field_dwave'', 401)]\<rparr>),
         (''openfermion.hamiltonians._plane_wave_hamiltonian'', \<lparr>mod_obj = 600,
         mod_dict = [(''dual_basis_external_potential'', 601), (''fourier_transform'', 602),
         (''inverse_fourier_transform'', 603), (''plane_wave_external_potential'', 604),
         (''plane_wave_hamiltonian'', 605), (''jordan_wigner_dual_basis_hamiltonian'', 606),
         (''wigner_seitz_length_scale'', 607)]\<rparr>)],
      pkg_loaded = True,
      pkg_dict =
        [(''__name__'', 0), (''__doc__'', 0), (''__package__'', 0), (''__loader__'', 0),
         (''__spec__'', 0), (''__path__'', 0), (''__file__'', 0), (''__cached__'', 0),
         (''__builtins__'', 0), (''make_atomic_ring'', 101), (''make_atomic_lattice'', 102),
         (''make_atom'', 103), (''fermi_hubbard'', 202), (''_jellium'', 300),
         (''dual_basis_kinetic'', 301), (''dual_basis_potential'', 302),
         (''dual_basis_jellium_model'', 303), (''jellium_model'', 304),
         (''jordan_wigner_dual_basis_jellium'', 305), (''plane_wave_kinetic'', 306),
         (''plane_wave_potential'', 307), (''_mean_field_dwave'', 400),
         (''mean_field_dwave'', 401), (''MolecularData'', 502), (''periodic_table'', 501),
         (''_plane_wave_hamiltonian'', 600), (''dual_basis_external_potential'', 601),
         (''fourier_transform'', 602), (''inverse_fourier_transform'', 603),
         (''plane_wave_external_potential'', 604), (''plane_wave_hamiltonian'', 605),
         (''jordan_wigner_dual_basis_hamiltonian'', 606),
         (''wigner_seitz_length_scale'', 607)],
      world = 9,
      events =
        [Init ''_molecular_data'', Init ''_chemical_series'', Bind ''make_atomic_ring'',
         Bind ''make_atomic_lattice'', Bind ''make_atom'', Init ''_hubbard'',
         Bind ''fermi_hubbard'', Bind ''make_atomic_ring'', Bind ''make_atomic_lattice'',
         Bind ''make_atom'', Bind ''fermi_hubbard'', Init ''_jellium'',
         Bind ''dual_basis_kinetic'', Bind ''dual_basis_potential'',
         Bind ''dual_basis_jellium_model'', Bind ''jellium_model'',
         Bind ''jordan_wigner_dual_basis_jellium'', Bind ''plane_wave_kinetic'',
         Bind ''plane_wave_potential'', Init ''_mean_field_dwave'', Bind ''mean_field_dwave'',
         Bind ''MolecularData'', Bind ''periodic_table'', Init ''_plane_wave_hamiltonian'',
         Bind ''dual_basis_external_potential'', Bind ''fourier_transform'',
         Bind ''inverse_fourier_transform'', Bind ''plane_wave_external_potential'',
         Bind ''plane_wave_hamiltonian'', Bind ''jordan_wigner_dual_basis_hamiltonian'',
         Bind ''wigner_seitz_length_scale'']\<rparr>"

text \<open>
  The interpreter after the import of the package has failed in \<open>missing_env\<close>.
\<close>

definition missing_interp :: "(nat, nat) interp" where
  "missing_interp =
     \<lparr>sys_modules =
        [(''openfermion.hamiltonians._molecular_data'', \<lparr>mod_obj = 500,
         mod_dict = [(''periodic_table'', 501), (''MolecularData'', 502)]\<rparr>),
         (''openfermion.hamiltonians._chemical_series'', \<lparr>mod_obj = 100,
         mod_dict = [(''make_atomic_ring'', 101), (''make_atomic_lattice'', 102),
         (''make_atom'', 103)]\<rparr>), (''openfermion.hamiltonians._hubbard'',
         \<lparr>mod_obj = 200, mod_dict = [(''up_index'', 201)]\<rparr>)],
      pkg_loaded = False,
      pkg_dict =
        [(''__name__'', 0), (''__doc__'', 0), (''__package__'', 0), (''__loader__'', 0),
         (''__spec__'', 0), (''__path__'', 0), (''__file__'', 0), (''__cached__'', 0),
         (''__builtins__'', 0), (''_molecular_data'', 500), (''_chemical_series'', 100),
         (''make_atomic_ring'', 101), (''make_atomic_lattice'', 102), (''make_atom'', 103),
         (''_hubbard'', 200)],
      world = 3,
      events =
        [Init ''_molecular_data'', Init ''_chemical_series'', Bind ''make_atomic_ring'',
         Bind ''make_atomic_lattice'', Bind ''make_atom'', Init ''_hubbard'']\<rparr>"

section \<open>Properties of the import statement\<close>

subsection \<open>Association lists and names\<close>

lemma final_simps [simp]: "final (Inr s) = s" "final (Inl (x, s)) = s"
  by (simp_all add: final_def)

lemma update_fresh_append: "k \<notin> set (map fst d) \<Longrightarrow> AList.update k v d = d @ [(k, v)]"
  by (induction d) auto

lemma map_of_update_if: "map_of (AList.update k v d) k' = (if k' = k then Some v else map_of d k')"
  by (simp add: update_conv')

lemma update_key_mem: "(a, b) \<in> set (AList.update k v d) \<Longrightarrow> a = k \<or> a \<in> fst ` set d"
  using dom_update [of k v d] by force

lemma keys_update_subset: "set (map fst (AList.update k v d)) \<subseteq> insert k (set (map fst d))"
  using dom_update [of k v d] by auto

lemma absolute_name_inj: "absolute_name a = absolute_name b \<longleftrightarrow> a = b"
  by (simp add: absolute_name_def)

lemma map_of_append_left: "map_of xs k = Some v \<Longrightarrow> map_of (xs @ ys) k = Some v"
  by (simp add: map_add_Some_iff)

lemma cached_keys: "cached s sub \<longleftrightarrow> absolute_name sub \<in> set (map fst (sys_modules s))"
  by (simp add: cached_def map_of_eq_None_iff)

lemma init_names_append: "init_names (xs @ ys) = init_names xs @ init_names ys"
  by (induction xs rule: init_names.induct) simp_all

lemma init_names_mem: "k \<in> set (init_names evs) \<longleftrightarrow> Init k \<in> set evs"
  by (induction evs rule: init_names.induct) auto

lemma init_names_Bind: "init_names (map Bind ns) = []"
  by (induction ns) simp_all

lemma filter_not_init_Bind: "filter (\<lambda>e. \<not> is_init e) (map Bind ns) = map Bind ns"
  by (induction ns) simp_all

lemma filter_not_init_inits: "\<forall>e\<in>set evs. is_init e \<Longrightarrow> filter (\<lambda>e. \<not> is_init e) evs = []"
  by (induction evs) simp_all

subsection \<open>Entering a module\<close>

lemma enter_module_simps [simp]:
  "sys_modules (enter_module k m s) = sys_modules s @ [(absolute_name k, m)]"
  "pkg_loaded (enter_module k m s) = pkg_loaded s"
  "pkg_dict (enter_module k m s) = AList.update k (mod_obj m) (pkg_dict s)"
  "world (enter_module k m s) = world s"
  "events (enter_module k m s) = events s @ [Init k]"
  by (simp_all add: enter_module_def)

lemma lookup_enter_module:
  "map_of (sys_modules (enter_module k m s)) a =
     (case map_of (sys_modules s) a of
        Some x \<Rightarrow> Some x
      | None \<Rightarrow> if a = absolute_name k then Some m else None)"
  by (simp add: map_add_def split: option.splits)

lemma cached_enter_module: "cached (enter_module k m s) k' \<longleftrightarrow> cached s k' \<or> k' = k"
  by (auto simp: cached_def lookup_enter_module absolute_name_inj split: option.splits)

lemma enter_siblings_frame [simp]:
  "pkg_loaded (enter_siblings sub sib s) = pkg_loaded s"
  "world (enter_siblings sub sib s) = world s"
  by (induction sub sib s rule: enter_siblings.induct) simp_all

lemma cached_enter_siblings_self: "cached (enter_siblings sub sib s) sub = cached s sub"
  by (induction sub sib s rule: enter_siblings.induct) (auto simp: cached_enter_module)

lemma enter_siblings_events:
  "\<exists>inits. events (enter_siblings sub sib s) = events s @ inits \<and> (\<forall>e\<in>set inits. is_init e)"
proof (induction sub sib s rule: enter_siblings.induct)
  case (1 sub s)
  show ?case by simp
next
  case (2 sub k m rest s)
  let ?s1 = "if k \<in> set submodule_names \<and> k \<noteq> sub \<and> \<not> cached s k then enter_module k m s else s"
  from "2.IH" obtain inits where
    i: "events (enter_siblings sub rest ?s1) = events ?s1 @ inits" "\<forall>e\<in>set inits. is_init e"
    by blast
  have "\<exists>i0. events ?s1 = events s @ i0 \<and> (\<forall>e\<in>set i0. is_init e)" by simp
  then obtain i0 where i0: "events ?s1 = events s @ i0" "\<forall>e\<in>set i0. is_init e" by blast
  have "events (enter_siblings sub ((k, m) # rest) s) = events s @ (i0 @ inits)"
    using i(1) i0(1) by simp
  moreover have "\<forall>e\<in>set (i0 @ inits). is_init e" using i(2) i0(2) by auto
  ultimately show ?case by blast
qed

subsection \<open>The steps of a run\<close>

lemma evolves_trans:
  assumes "evolves env N s t" and "evolves env N t u"
  shows "evolves env N s u"
  using assms(2,1)
  by (induction rule: evolves.induct) (auto intro: evolves.intros)

lemma evolves_mono:
  assumes "evolves env N s t" and "N \<subseteq> N'"
  shows "evolves env N' s t"
  using assms
  by (induction rule: evolves.induct) (auto intro: evolves.intros)

lemma enter_siblings_evolves: "evolves env N s (enter_siblings sub sib s)"
proof (induction sub sib s rule: enter_siblings.induct)
  case (1 sub s)
  show ?case by (simp add: evolves.start)
next
  case (2 sub k m rest s)
  let ?s1 = "if k \<in> set submodule_names \<and> k \<noteq> sub \<and> \<not> cached s k then enter_module k m s else s"
  have a: "evolves env N s ?s1" by (auto intro: evolves.intros)
  have b: "evolves env N ?s1 (enter_siblings sub rest ?s1)" by (rule "2.IH")
  have "enter_siblings sub ((k, m) # rest) s = enter_siblings sub rest ?s1" by simp
  with evolves_trans [OF a b] show ?case by simp
qed

lemma evolves_pkg_loaded:
  "evolves env N s t \<Longrightarrow> pkg_loaded t = pkg_loaded s"
  by (induction rule: evolves.induct) simp_all

lemma evolves_sys_modules:
  assumes "evolves env N s t"
  shows "\<exists>ms. sys_modules t = sys_modules s @ ms \<and>
              set (map fst ms) \<subseteq> absolute_name ` set submodule_names \<and>
              set (map fst ms) \<inter> set (map fst (sys_modules s)) = {}"
  using assms
proof (induction rule: evolves.induct)
  case start
  show ?case by simp
next
  case (enter t k m)
  from enter.IH obtain ms where ms: "sys_modules t = sys_modules s @ ms"
      "set (map fst ms) \<subseteq> absolute_name ` set submodule_names"
      "set (map fst ms) \<inter> set (map fst (sys_modules s)) = {}" by blast
  from enter.hyps(3) ms(1) have "absolute_name k \<notin> set (map fst (sys_modules s))"
    by (simp add: cached_keys)
  with ms enter.hyps(2) have
    "sys_modules (enter_module k m t) = sys_modules s @ (ms @ [(absolute_name k, m)]) \<and>
     set (map fst (ms @ [(absolute_name k, m)])) \<subseteq> absolute_name ` set submodule_names \<and>
     set (map fst (ms @ [(absolute_name k, m)])) \<inter> set (map fst (sys_modules s)) = {}"
    by auto
  then show ?case by blast
next
  case (bind t n v)
  then show ?case by simp
next
  case (run t a t' r w sib)
  then show ?case by simp
qed

lemma evolves_lookup_mono:
  assumes "evolves env N s t" and "map_of (sys_modules s) a = Some m"
  shows "map_of (sys_modules t) a = Some m"
proof -
  from evolves_sys_modules [OF assms(1)] obtain ms where "sys_modules t = sys_modules s @ ms"
    by blast
  with assms(2) show ?thesis by (simp add: map_of_append_left)
qed

lemma evolves_cached_mono:
  assumes "evolves env N s t" and "cached s k"
  shows "cached t k"
  using assms evolves_lookup_mono [OF assms(1)] by (auto simp: cached_def)

lemma evolves_keys_subset:
  assumes "evolves env N s t"
  shows "set (map fst (pkg_dict t)) \<subseteq> set (map fst (pkg_dict s)) \<union> set submodule_names \<union> N"
  using assms
proof (induction rule: evolves.induct)
  case start
  show ?case by auto
next
  case (enter t k m)
  have "set (map fst (pkg_dict (enter_module k m t))) \<subseteq> insert k (set (map fst (pkg_dict t)))"
    using keys_update_subset [of k "mod_obj m" "pkg_dict t"] by simp
  with enter.IH enter.hyps(2) show ?case by blast
next
  case (bind t n v)
  have "set (map fst (AList.update n v (pkg_dict t))) \<subseteq> insert n (set (map fst (pkg_dict t)))"
    by (rule keys_update_subset)
  then have "set (map fst (pkg_dict (t\<lparr>pkg_dict := AList.update n v (pkg_dict t),
      events := events t @ [Bind n]\<rparr>))) \<subseteq> insert n (set (map fst (pkg_dict t)))"
    by simp
  with bind.IH bind.hyps(2) show ?case by blast
next
  case (run t a t' r w sib)
  then show ?case by simp
qed

lemma evolves_untouched:
  assumes "evolves env N s t" and "k \<notin> set submodule_names" and "k \<notin> N"
  shows "map_of (pkg_dict t) k = map_of (pkg_dict s) k"
  using assms
  by (induction rule: evolves.induct) (auto simp: map_of_update_if)

lemma evolves_cached_attr:
  assumes "evolves env N s t" and "N \<inter> set submodule_names = {}" and "cached s sub"
    and "sub \<in> set submodule_names"
  shows "map_of (pkg_dict t) sub = map_of (pkg_dict s) sub"
  using assms
proof (induction rule: evolves.induct)
  case start
  show ?case by simp
next
  case (enter t k m)
  from evolves_cached_mono [OF enter.hyps(1) enter.prems(2)] enter.hyps(3) have "sub \<noteq> k" by auto
  with enter.IH [OF enter.prems] show ?case by (simp add: map_of_update_if)
next
  case (bind t n v)
  from bind.hyps(2) bind.prems(1,3) have "sub \<noteq> n" by auto
  with bind.IH [OF bind.prems] show ?case by (simp add: map_of_update_if)
next
  case (run t a t' r w sib)
  then show ?case by simp
qed

lemma evolves_fresh_attr:
  assumes "evolves env N s t" and "N \<inter> set submodule_names = {}" and "\<not> cached s sub"
    and "sub \<in> set submodule_names"
  shows "case map_of (sys_modules t) (absolute_name sub) of
           None \<Rightarrow> map_of (pkg_dict t) sub = map_of (pkg_dict s) sub
         | Some m \<Rightarrow> map_of (pkg_dict t) sub = Some (mod_obj m)"
  using assms
proof (induction rule: evolves.induct)
  case start
  then show ?case by (simp add: cached_def)
next
  case (enter t k m)
  show ?case
  proof (cases "k = sub")
    case True
    with enter.hyps(3) have "map_of (sys_modules t) (absolute_name sub) = None"
      by (simp add: cached_def)
    with True show ?thesis
      by (simp add: lookup_enter_module map_of_update_if del: enter_module_simps(1))
  next
    case False
    then have "absolute_name sub \<noteq> absolute_name k" by (simp add: absolute_name_inj)
    with False enter.IH [OF enter.prems] show ?thesis
      by (auto simp: lookup_enter_module map_of_update_if simp del: enter_module_simps(1)
          split: option.splits)
  qed
next
  case (bind t n v)
  from bind.hyps(2) bind.prems(1,3) have "sub \<noteq> n" by auto
  with bind.IH [OF bind.prems] show ?case
    by (auto simp: map_of_update_if split: option.splits)
next
  case (run t a t' r w sib)
  from run.IH [OF run.prems] show ?case by (auto split: option.splits)
qed

lemma evolves_inits:
  assumes "evolves env N s t"
  shows "\<exists>evs. events t = events s @ evs \<and> distinct (init_names evs) \<and>
           set (init_names evs) = {k \<in> set submodule_names. cached t k \<and> \<not> cached s k}"
  using assms
proof (induction rule: evolves.induct)
  case start
  have "events s = events s @ [] \<and> distinct (init_names []) \<and>
           set (init_names []) = {k \<in> set submodule_names. cached s k \<and> \<not> cached s k}"
    by simp
  then show ?case by blast
next
  case (enter t k m)
  from enter.IH obtain evs where evs: "events t = events s @ evs" "distinct (init_names evs)"
    "set (init_names evs) = {k \<in> set submodule_names. cached t k \<and> \<not> cached s k}" by blast
  from enter.hyps(3) evolves_cached_mono [OF enter.hyps(1)] have ns: "\<not> cached s k" by blast
  have a: "events (enter_module k m t) = events s @ (evs @ [Init k])" using evs(1) by simp
  have b: "distinct (init_names (evs @ [Init k]))"
    using evs(2,3) enter.hyps(3) by (simp add: init_names_append)
  have c: "set (init_names (evs @ [Init k])) =
      {k' \<in> set submodule_names. cached (enter_module k m t) k' \<and> \<not> cached s k'}"
    using evs(3) enter.hyps(2) ns by (auto simp: init_names_append cached_enter_module)
  from a b c show ?case by blast
next
  case (bind t n v)
  from bind.IH obtain evs where evs: "events t = events s @ evs" "distinct (init_names evs)"
    "set (init_names evs) = {k \<in> set submodule_names. cached t k \<and> \<not> cached s k}" by blast
  let ?t = "t\<lparr>pkg_dict := AList.update n v (pkg_dict t), events := events t @ [Bind n]\<rparr>"
  have "events ?t = events s @ (evs @ [Bind n])" using evs(1) by simp
  moreover have "distinct (init_names (evs @ [Bind n]))" using evs(2) by (simp add: init_names_append)
  moreover have "set (init_names (evs @ [Bind n])) =
      {k \<in> set submodule_names. cached ?t k \<and> \<not> cached s k}"
    using evs(3) by (simp add: init_names_append cached_def)
  ultimately show ?case by blast
next
  case (run t a t' r w sib)
  from run.IH obtain evs where evs: "events t = events s @ evs" "distinct (init_names evs)"
    "set (init_names evs) = {k \<in> set submodule_names. cached t k \<and> \<not> cached s k}" by blast
  have "events (t\<lparr>world := w\<rparr>) = events s @ evs" using evs(1) by simp
  moreover have "set (init_names evs) =
      {k \<in> set submodule_names. cached (t\<lparr>world := w\<rparr>) k \<and> \<not> cached s k}"
    using evs(3) by (simp add: cached_def)
  ultimately show ?case using evs(2) by blast
qed

lemma evolves_world:
  assumes "evolves env N s t"
    and "\<forall>a s' r w sib. find_and_load env a s' = (r, w, sib) \<longrightarrow> P (world s') \<longrightarrow> P w"
    and "P (world s)"
  shows "P (world t)"
  using assms
proof (induction rule: evolves.induct)
  case start
  then show ?case by simp
next
  case (enter t k m)
  then show ?case by simp
next
  case (bind t n v)
  then show ?case by simp
next
  case (run t a t' r w sib)
  from run.IH [OF run.prems] run.hyps(3) have "P (world t')" by simp
  with run.prems(1) run.hyps(2) show ?case by simp blast
qed

subsection \<open>Binding the names of one statement\<close>

lemma bind_names_frame:
  "bind_names m ns s = Inr t \<or> bind_names m ns s = Inl (n, t) \<Longrightarrow>
   sys_modules t = sys_modules s \<and> world t = world s \<and> pkg_loaded t = pkg_loaded s"
  by (induction ns arbitrary: s) (auto split: option.splits)

lemma bind_names_evolves:
  "bind_names m ns s = Inr t \<or> bind_names m ns s = Inl (n, t) \<Longrightarrow> evolves env (set ns) s t"
proof (induction ns arbitrary: s)
  case Nil
  then show ?case by (auto intro: evolves.start)
next
  case (Cons a ns)
  show ?case
  proof (cases "map_of (mod_dict m) a")
    case None
    with Cons.prems show ?thesis by (auto intro: evolves.start)
  next
    case (Some v)
    let ?s1 = "s\<lparr>pkg_dict := AList.update a v (pkg_dict s), events := events s @ [Bind a]\<rparr>"
    from Cons.prems Some have "bind_names m ns ?s1 = Inr t \<or> bind_names m ns ?s1 = Inl (n, t)"
      by simp
    from Cons.IH [OF this] have "evolves env (set ns) ?s1 t" .
    then have b: "evolves env (set (a # ns)) ?s1 t" by (rule evolves_mono) auto
    have a: "evolves env (set (a # ns)) s ?s1"
      by (rule evolves.bind [OF evolves.start]) simp
    from evolves_trans [OF a b] show ?thesis .
  qed
qed

lemma bind_names_events:
  "bind_names m ns s = Inr t \<Longrightarrow> events t = events s @ map Bind ns"
  by (induction ns arbitrary: s) (auto split: option.splits)

lemma bind_names_lookup:
  "bind_names m ns s = Inr t \<Longrightarrow>
   map_of (pkg_dict t) k = (if k \<in> set ns then map_of (mod_dict m) k else map_of (pkg_dict s) k)"
  by (induction ns arbitrary: s) (auto simp: map_of_update_if split: option.splits)

lemma bind_names_provided:
  "bind_names m ns s = Inr t \<Longrightarrow> n \<in> set ns \<Longrightarrow> map_of (mod_dict m) n \<noteq> None"
  by (induction ns arbitrary: s) (auto split: option.splits)

lemma bind_names_keys:
  "bind_names m ns s = Inr t \<Longrightarrow> distinct ns \<Longrightarrow> set ns \<inter> set (map fst (pkg_dict s)) = {} \<Longrightarrow>
   map fst (pkg_dict t) = map fst (pkg_dict s) @ ns"
proof (induction ns arbitrary: s)
  case Nil
  then show ?case by simp
next
  case (Cons a ns)
  from Cons.prems(1) obtain v where v: "map_of (mod_dict m) a = Some v"
    by (auto split: option.splits)
  let ?s1 = "s\<lparr>pkg_dict := AList.update a v (pkg_dict s), events := events s @ [Bind a]\<rparr>"
  from Cons.prems(1) v have run: "bind_names m ns ?s1 = Inr t" by simp
  from Cons.prems(3) have fresh: "a \<notin> set (map fst (pkg_dict s))" by auto
  then have d1: "pkg_dict ?s1 = pkg_dict s @ [(a, v)]" by (simp add: update_fresh_append)
  from Cons.prems(2,3) have "set ns \<inter> set (map fst (pkg_dict ?s1)) = {}"
    unfolding d1 by auto
  with Cons.IH [OF run] Cons.prems(2) have "map fst (pkg_dict t) = map fst (pkg_dict ?s1) @ ns"
    by simp
  then show ?case unfolding d1 by simp
qed

lemma bind_names_missing:
  "bind_names m ns s = Inl (n, t) \<Longrightarrow> n \<in> set ns \<and> map_of (mod_dict m) n = None"
  by (induction ns arbitrary: s) (auto split: option.splits)

text \<open>The first listed name that the module does not have ends the statement.\<close>

lemma bind_names_first_missing:
  "find (\<lambda>n. map_of (mod_dict m) n = None) ns = Some n \<Longrightarrow> \<exists>t. bind_names m ns s = Inl (n, t)"
  by (induction ns arbitrary: s) (auto split: option.splits if_splits)

lemma bind_names_none_missing:
  "\<forall>n\<in>set ns. map_of (mod_dict m) n \<noteq> None \<Longrightarrow> \<exists>t. bind_names m ns s = Inr t"
  by (induction ns arbitrary: s) (auto split: option.splits)

lemma bind_names_rebind:
  "\<forall>n\<in>set ns. map_of (mod_dict m) n \<noteq> None \<and> map_of (pkg_dict s) n = map_of (mod_dict m) n \<Longrightarrow>
   bind_names m ns s = Inr (s\<lparr>events := events s @ map Bind ns\<rparr>)"
proof (induction ns arbitrary: s)
  case Nil
  show ?case by simp
next
  case (Cons a ns)
  from Cons.prems obtain v where v: "map_of (mod_dict m) a = Some v" "map_of (pkg_dict s) a = Some v"
    by auto
  then have same: "AList.update a v (pkg_dict s) = pkg_dict s" by (simp add: update_triv)
  let ?s1 = "s\<lparr>events := events s @ [Bind a]\<rparr>"
  from Cons.prems have "\<forall>n\<in>set ns. map_of (mod_dict m) n \<noteq> None \<and>
      map_of (pkg_dict ?s1) n = map_of (mod_dict m) n" by simp
  from Cons.IH [OF this] v same show ?case by simp
qed

subsection \<open>One statement\<close>

lemma import_submodule_Inr:
  assumes "import_submodule env sub s = Inr (m, s1)"
  shows "(map_of (sys_modules s) (absolute_name sub) = Some m \<and> s1 = s) \<or>
         (map_of (sys_modules s) (absolute_name sub) = None \<and>
          (\<exists>w sib. find_and_load env (absolute_name sub) s = (Inr m, w, sib) \<and>
               s1 = (enter_module sub m (enter_siblings sub sib s))\<lparr>world := w\<rparr>))"
  using assms by (auto simp: import_submodule_def split: option.splits prod.splits sum.splits)

lemma import_submodule_Inl:
  assumes "import_submodule env sub s = Inl (x, t)"
  shows "map_of (sys_modules s) (absolute_name sub) = None \<and>
         (\<exists>e w sib. find_and_load env (absolute_name sub) s = (Inl e, w, sib) \<and>
                x = Raised e \<and> t = (enter_siblings sub sib s)\<lparr>world := w\<rparr>)"
  using assms by (auto simp: import_submodule_def split: option.splits prod.splits sum.splits)

lemma import_submodule_cached:
  "map_of (sys_modules s) (absolute_name sub) = Some m \<Longrightarrow> import_submodule env sub s = Inr (m, s)"
  by (simp add: import_submodule_def)

lemma import_submodule_evolves:
  assumes "import_submodule env sub s = Inr (m, t) \<or> import_submodule env sub s = Inl (x, t)"
    and "sub \<in> set submodule_names"
  shows "evolves env N s t"
  using assms(1)
proof
  assume "import_submodule env sub s = Inr (m, t)"
  from import_submodule_Inr [OF this] show ?thesis
  proof (elim disjE conjE exE)
    assume "t = s"
    then show ?thesis by (simp add: evolves.start)
  next
    fix w sib
    assume none: "map_of (sys_modules s) (absolute_name sub) = None"
      and fl: "find_and_load env (absolute_name sub) s = (Inr m, w, sib)"
      and t: "t = (enter_module sub m (enter_siblings sub sib s))\<lparr>world := w\<rparr>"
    let ?s1 = "enter_siblings sub sib s"
    have a: "evolves env N s ?s1" by (rule enter_siblings_evolves)
    from none have "\<not> cached s sub" by (simp add: cached_def)
    then have "\<not> cached ?s1 sub" by (simp add: cached_enter_siblings_self)
    from evolves.enter [OF a assms(2) this] have b: "evolves env N s (enter_module sub m ?s1)" .
    have "world s = world (enter_module sub m ?s1)" by simp
    from evolves.run [OF b fl this] t show ?thesis by simp
  qed
next
  assume "import_submodule env sub s = Inl (x, t)"
  from import_submodule_Inl [OF this] obtain e w sib where
    fl: "find_and_load env (absolute_name sub) s = (Inl e, w, sib)"
    and t: "t = (enter_siblings sub sib s)\<lparr>world := w\<rparr>" by blast
  let ?s1 = "enter_siblings sub sib s"
  have a: "evolves env N s ?s1" by (rule enter_siblings_evolves)
  have "world s = world ?s1" by simp
  from evolves.run [OF a fl this] t show ?thesis by simp
qed

lemma import_submodule_result:
  assumes "import_submodule env sub s = Inr (m, s1)"
  shows "map_of (sys_modules s1) (absolute_name sub) = Some m"
    and "\<exists>inits. events s1 = events s @ inits \<and> (\<forall>e\<in>set inits. is_init e) \<and>
           (cached s sub \<or> Init sub \<in> set inits)"
proof -
  from import_submodule_Inr [OF assms]
  have "map_of (sys_modules s1) (absolute_name sub) = Some m \<and>
        (\<exists>inits. events s1 = events s @ inits \<and> (\<forall>e\<in>set inits. is_init e) \<and>
           (cached s sub \<or> Init sub \<in> set inits))"
  proof (elim disjE conjE exE)
    assume "map_of (sys_modules s) (absolute_name sub) = Some m" and "s1 = s"
    then have "map_of (sys_modules s1) (absolute_name sub) = Some m"
      and "events s1 = events s @ [] \<and> (\<forall>e\<in>set []. is_init e) \<and> (cached s sub \<or> Init sub \<in> set [])"
      by (simp_all add: cached_def)
    then show ?thesis by blast
  next
    fix w sib
    assume none: "map_of (sys_modules s) (absolute_name sub) = None"
      and s1: "s1 = (enter_module sub m (enter_siblings sub sib s))\<lparr>world := w\<rparr>"
    let ?s0 = "enter_siblings sub sib s"
    from none have "\<not> cached s sub" by (simp add: cached_def)
    then have "\<not> cached ?s0 sub" by (simp add: cached_enter_siblings_self)
    then have "map_of (sys_modules ?s0) (absolute_name sub) = None" by (simp add: cached_def)
    then have a: "map_of (sys_modules s1) (absolute_name sub) = Some m"
      unfolding s1 by (simp add: map_add_def)
    from enter_siblings_events [of sub sib s] obtain inits where
      i: "events ?s0 = events s @ inits" "\<forall>e\<in>set inits. is_init e" by blast
    have "events s1 = events s @ (inits @ [Init sub]) \<and> (\<forall>e\<in>set (inits @ [Init sub]). is_init e) \<and>
           (cached s sub \<or> Init sub \<in> set (inits @ [Init sub]))"
      unfolding s1 using i by simp
    with a show ?thesis by blast
  qed
  then show "map_of (sys_modules s1) (absolute_name sub) = Some m"
    and "\<exists>inits. events s1 = events s @ inits \<and> (\<forall>e\<in>set inits. is_init e) \<and>
           (cached s sub \<or> Init sub \<in> set inits)"
    by blast+
qed

text \<open>The three ways a statement can end.\<close>

lemma from_import_cases [case_names Raises Missing Bound]:
  obtains
    t x where "import_submodule env sub s = Inl (x, t)"
      and "from_import env sub ns s = Inl (x, t)"
  | m s1 n t where "import_submodule env sub s = Inr (m, s1)"
      and "bind_names m ns s1 = Inl (n, t)"
      and "from_import env sub ns s = Inl (ImportError n (absolute_name sub), t)"
  | m s1 t where "import_submodule env sub s = Inr (m, s1)"
      and "bind_names m ns s1 = Inr t"
      and "from_import env sub ns s = Inr t"
proof (cases "import_submodule env sub s")
  case (Inl a)
  then show ?thesis using that(1) by (cases a) (simp add: from_import_def)
next
  case (Inr b)
  obtain m s1 where b: "b = (m, s1)" by (cases b)
  show ?thesis
  proof (cases "bind_names m ns s1")
    case (Inl c)
    with Inr b show ?thesis using that(2) by (cases c) (simp add: from_import_def)
  next
    case Inr2: (Inr t)
    with Inr b show ?thesis using that(3) by (simp add: from_import_def)
  qed
qed

lemma from_import_Inr:
  assumes "from_import env sub ns s = Inr t"
  obtains m s1 where "import_submodule env sub s = Inr (m, s1)" and "bind_names m ns s1 = Inr t"
  using assms by (cases rule: from_import_cases [of env sub s ns]) auto

lemma from_import_evolves:
  assumes "sub \<in> set submodule_names"
  shows "evolves env (set ns) s (final (from_import env sub ns s))"
proof (cases rule: from_import_cases [of env sub s ns])
  case (Raises t x)
  from import_submodule_evolves [OF _ assms, of env s _ t x] Raises show ?thesis by simp
next
  case (Missing m s1 n t)
  from import_submodule_evolves [OF _ assms, of env s m s1] Missing(1)
  have a: "evolves env (set ns) s s1" by simp
  from bind_names_evolves [of m ns s1 t n env] Missing(2) have "evolves env (set ns) s1 t" by simp
  from evolves_trans [OF a this] Missing(3) show ?thesis by simp
next
  case (Bound m s1 t)
  from import_submodule_evolves [OF _ assms, of env s m s1] Bound(1)
  have a: "evolves env (set ns) s s1" by simp
  from bind_names_evolves [of m ns s1 t _ env] Bound(2) have "evolves env (set ns) s1 t" by simp
  from evolves_trans [OF a this] Bound(3) show ?thesis by simp
qed

lemma from_import_result:
  assumes "from_import env sub ns s = Inr t"
  shows "\<exists>m. map_of (sys_modules t) (absolute_name sub) = Some m \<and>
             (\<forall>n\<in>set ns. map_of (pkg_dict t) n = map_of (mod_dict m) n \<and>
                          map_of (mod_dict m) n \<noteq> None)"
proof -
  from assms obtain m s1 where imp: "import_submodule env sub s = Inr (m, s1)"
    and run: "bind_names m ns s1 = Inr t" by (rule from_import_Inr)
  have "map_of (sys_modules t) (absolute_name sub) = Some m"
    using bind_names_frame [of m ns s1 t] run import_submodule_result(1) [OF imp] by simp
  moreover have "\<forall>n\<in>set ns. map_of (pkg_dict t) n = map_of (mod_dict m) n \<and>
                          map_of (mod_dict m) n \<noteq> None"
    using bind_names_lookup [OF run] bind_names_provided [OF run] by auto
  ultimately show ?thesis by blast
qed

lemma from_import_events:
  assumes "from_import env sub ns s = Inr t"
  shows "\<exists>inits. events t = events s @ inits @ map Bind ns \<and> (\<forall>e\<in>set inits. is_init e) \<and>
           (cached s sub \<or> Init sub \<in> set inits)"
proof -
  from assms obtain m s1 where imp: "import_submodule env sub s = Inr (m, s1)"
    and run: "bind_names m ns s1 = Inr t" by (rule from_import_Inr)
  from import_submodule_result(2) [OF imp] obtain inits where
    i: "events s1 = events s @ inits" "\<forall>e\<in>set inits. is_init e" "cached s sub \<or> Init sub \<in> set inits"
    by blast
  from bind_names_events [OF run] i(1) have "events t = events s @ inits @ map Bind ns" by simp
  with i(2,3) show ?thesis by blast
qed

lemma from_import_error:
  assumes "from_import env sub ns s = Inl (x, t)"
  shows "(\<exists>e. x = Raised e \<and> \<not> cached s sub \<and>
              fst (find_and_load env (absolute_name sub) s) = Inl e) \<or>
         (\<exists>n\<in>set ns. \<exists>m. x = ImportError n (absolute_name sub) \<and>
              map_of (sys_modules t) (absolute_name sub) = Some m \<and>
              map_of (mod_dict m) n = None)"
proof (cases rule: from_import_cases [of env sub s ns])
  case (Raises t' x')
  with assms show ?thesis using import_submodule_Inl [OF Raises(1)] by (auto simp: cached_def)
next
  case (Missing m s1 n t')
  with assms have x: "x = ImportError n (absolute_name sub)" and t: "t' = t" by simp_all
  have "map_of (sys_modules t) (absolute_name sub) = Some m"
    using bind_names_frame [of m ns s1 t' n] Missing(2) import_submodule_result(1) [OF Missing(1)] t
    by simp
  with bind_names_missing [OF Missing(2)] x show ?thesis by blast
next
  case (Bound m s1 t')
  with assms show ?thesis by simp
qed

lemma from_import_rebind:
  assumes "map_of (sys_modules s) (absolute_name sub) = Some m"
    and "\<forall>n\<in>set ns. map_of (mod_dict m) n \<noteq> None \<and> map_of (pkg_dict s) n = map_of (mod_dict m) n"
  shows "from_import env sub ns s = Inr (s\<lparr>events := events s @ map Bind ns\<rparr>)"
  using assms(1) bind_names_rebind [OF assms(2)]
  by (simp add: from_import_def import_submodule_def)

lemma from_import_cached_frame:
  assumes "cached s sub"
  shows "sys_modules (final (from_import env sub ns s)) = sys_modules s \<and>
         world (final (from_import env sub ns s)) = world s"
proof -
  from assms obtain m where "map_of (sys_modules s) (absolute_name sub) = Some m"
    by (auto simp: cached_def)
  then have imp: "import_submodule env sub s = Inr (m, s)" by (rule import_submodule_cached)
  show ?thesis
  proof (cases "bind_names m ns s")
    case (Inl c)
    obtain n t where c: "c = (n, t)" by (cases c)
    with Inl imp bind_names_frame [of m ns s t n] show ?thesis by (simp add: from_import_def)
  next
    case (Inr t)
    with imp bind_names_frame [of m ns s t] show ?thesis by (simp add: from_import_def)
  qed
qed

subsection \<open>Public keys of the package namespace\<close>

lemma filter_public_update:
  "\<not> public_name k \<Longrightarrow>
   filter public_name (map fst (AList.update k v d)) = filter public_name (map fst d)"
  by (simp add: update_keys)

lemma enter_siblings_public_keys:
  assumes "\<forall>k\<in>set submodule_names. \<not> public_name k"
  shows "filter public_name (map fst (pkg_dict (enter_siblings sub sib s))) =
         filter public_name (map fst (pkg_dict s))"
  using assms
  by (induction sub sib s rule: enter_siblings.induct) (auto simp: filter_public_update)

lemma import_submodule_public_keys:
  assumes "import_submodule env sub s = Inr (m, s1)"
    and "\<forall>k\<in>set submodule_names. \<not> public_name k" and "sub \<in> set submodule_names"
  shows "filter public_name (map fst (pkg_dict s1)) = filter public_name (map fst (pkg_dict s))"
  using import_submodule_Inr [OF assms(1)] assms(2,3)
  by (auto simp: filter_public_update enter_siblings_public_keys)

lemma from_import_public_keys:
  assumes "from_import env sub ns s = Inr t"
    and "\<forall>k\<in>set submodule_names. \<not> public_name k" and "sub \<in> set submodule_names"
    and "\<forall>n\<in>set ns. public_name n" and "distinct ns"
    and "set ns \<inter> set (map fst (pkg_dict s)) = {}"
  shows "filter public_name (map fst (pkg_dict t)) = filter public_name (map fst (pkg_dict s)) @ ns"
proof -
  from assms(1) obtain m s1 where imp: "import_submodule env sub s = Inr (m, s1)"
    and run: "bind_names m ns s1 = Inr t" by (rule from_import_Inr)
  from import_submodule_evolves [OF _ assms(3), of env s m s1 _ "{}"] imp
  have "evolves env {} s s1" by simp
  from evolves_keys_subset [OF this]
  have "set (map fst (pkg_dict s1)) \<subseteq> set (map fst (pkg_dict s)) \<union> set submodule_names" by simp
  with assms(2,4,6) have "set ns \<inter> set (map fst (pkg_dict s1)) = {}" by blast
  from bind_names_keys [OF run assms(5) this]
  have "map fst (pkg_dict t) = map fst (pkg_dict s1) @ ns" .
  moreover from assms(4) have "filter public_name ns = ns" by simp
  ultimately show ?thesis
    using import_submodule_public_keys [OF imp assms(2,3)] by simp
qed

subsection \<open>A sequence of statements\<close>

lemma exec_imports_step [case_names Stop Go]:
  obtains
    x t where "from_import env sub ns s = Inl (x, t)"
      and "exec_imports env ((sub, ns) # rest) s = Inl (x, t)"
  | s1 where "from_import env sub ns s = Inr s1"
      and "exec_imports env ((sub, ns) # rest) s = exec_imports env rest s1"
proof (cases "from_import env sub ns s")
  case (Inl a)
  then show ?thesis using that(1) by (cases a) simp
next
  case (Inr s1)
  then show ?thesis using that(2) by simp
qed

lemma exec_imports_Cons_Inr:
  assumes "exec_imports env ((sub, ns) # rest) s = Inr t"
  obtains s1 where "from_import env sub ns s = Inr s1" and "exec_imports env rest s1 = Inr t"
  using assms by (cases rule: exec_imports_step [of env sub ns s rest]) auto

lemma exec_imports_append:
  "exec_imports env (pre @ post) s =
     (case exec_imports env pre s of Inl x \<Rightarrow> Inl x | Inr s1 \<Rightarrow> exec_imports env post s1)"
  by (induction env pre s rule: exec_imports.induct) (auto split: sum.splits)

lemma bound_names_Cons: "bound_names ((sub, ns) # rest) = ns @ bound_names rest"
  by (simp add: bound_names_def)

lemma bound_names_Nil: "bound_names [] = []"
  by (simp add: bound_names_def)

lemma exec_imports_evolves:
  assumes "set (map fst stmts) \<subseteq> set submodule_names"
  shows "evolves env (set (bound_names stmts)) s (final (exec_imports env stmts s))"
  using assms
proof (induction env stmts s rule: exec_imports.induct)
  case (1 env s)
  show ?case by (simp add: evolves.start)
next
  case (2 env sub ns rest s)
  from "2.prems" have sub: "sub \<in> set submodule_names"
    and rest: "set (map fst rest) \<subseteq> set submodule_names" by simp_all
  have "evolves env (set ns) s (final (from_import env sub ns s))"
    by (rule from_import_evolves [OF sub])
  then have one: "evolves env (set (bound_names ((sub, ns) # rest))) s (final (from_import env sub ns s))"
    by (rule evolves_mono) (simp add: bound_names_Cons)
  show ?case
  proof (cases rule: exec_imports_step [of env sub ns s rest])
    case (Stop x t)
    with one show ?thesis by simp
  next
    case (Go s1)
    from "2.IH" [OF Go(1) rest]
    have "evolves env (set (bound_names rest)) s1 (final (exec_imports env rest s1))" .
    then have "evolves env (set (bound_names ((sub, ns) # rest))) s1 (final (exec_imports env rest s1))"
      by (rule evolves_mono) (simp add: bound_names_Cons)
    with one Go show ?thesis using evolves_trans by fastforce
  qed
qed

lemma exec_imports_bindings:
  assumes "exec_imports env stmts s = Inr t"
    and "set (map fst stmts) \<subseteq> set submodule_names"
    and "distinct (bound_names stmts)"
    and "set (bound_names stmts) \<inter> set submodule_names = {}"
    and "(sub, ns) \<in> set stmts"
  shows "\<exists>m. map_of (sys_modules t) (absolute_name sub) = Some m \<and>
             (\<forall>n\<in>set ns. map_of (mod_dict m) n \<noteq> None \<and>
                          map_of (pkg_dict t) n = map_of (mod_dict m) n)"
  using assms
proof (induction env stmts s rule: exec_imports.induct)
  case (1 env s)
  then show ?case by simp
next
  case (2 env sub0 ns0 rest s)
  from "2.prems"(1) obtain s1 where one: "from_import env sub0 ns0 s = Inr s1"
    and run: "exec_imports env rest s1 = Inr t" by (rule exec_imports_Cons_Inr)
  from "2.prems"(2) have rest: "set (map fst rest) \<subseteq> set submodule_names" by simp
  from "2.prems"(3) have d: "distinct (bound_names rest)"
    and disj: "set ns0 \<inter> set (bound_names rest) = {}"
    by (auto simp: bound_names_Cons)
  from "2.prems"(4) have six: "set (bound_names rest) \<inter> set submodule_names = {}"
    and six0: "set ns0 \<inter> set submodule_names = {}"
    by (auto simp: bound_names_Cons)
  show ?case
  proof (cases "(sub, ns) \<in> set rest")
    case True
    from "2.IH" [OF one run rest d six True] show ?thesis .
  next
    case False
    with "2.prems"(5) have eq: "sub = sub0" "ns = ns0" by auto
    from from_import_result [OF one] obtain m where
      m: "map_of (sys_modules s1) (absolute_name sub0) = Some m"
         "\<forall>n\<in>set ns0. map_of (pkg_dict s1) n = map_of (mod_dict m) n \<and>
                          map_of (mod_dict m) n \<noteq> None" by blast
    from exec_imports_evolves [OF rest, of env s1] run
    have ev: "evolves env (set (bound_names rest)) s1 t" by simp
    from evolves_lookup_mono [OF ev m(1)]
    have a: "map_of (sys_modules t) (absolute_name sub0) = Some m" .
    have "\<forall>n\<in>set ns0. map_of (mod_dict m) n \<noteq> None \<and>
                          map_of (pkg_dict t) n = map_of (mod_dict m) n"
    proof
      fix n
      assume n: "n \<in> set ns0"
      with disj six0 have "n \<notin> set submodule_names" "n \<notin> set (bound_names rest)" by auto
      from evolves_untouched [OF ev this] have "map_of (pkg_dict t) n = map_of (pkg_dict s1) n" .
      with m(2) n show "map_of (mod_dict m) n \<noteq> None \<and>
                          map_of (pkg_dict t) n = map_of (mod_dict m) n" by simp
    qed
    with a eq show ?thesis by blast
  qed
qed

lemma exec_imports_events:
  assumes "exec_imports env stmts s = Inr t"
    and "set (map fst stmts) \<subseteq> set submodule_names"
  shows "\<exists>evs. events t = events s @ evs \<and>
           filter (\<lambda>e. \<not> is_init e) evs = map Bind (bound_names stmts) \<and>
           (\<forall>(sub, ns)\<in>set stmts. \<forall>n\<in>set ns.
              \<exists>pre post. evs = pre @ Bind n # post \<and> (cached s sub \<or> Init sub \<in> set pre))"
  using assms
proof (induction env stmts s rule: exec_imports.induct)
  case (1 env s)
  then show ?case by (simp add: bound_names_Nil)
next
  case (2 env sub0 ns0 rest s)
  from "2.prems"(1) obtain s1 where one: "from_import env sub0 ns0 s = Inr s1"
    and run: "exec_imports env rest s1 = Inr t" by (rule exec_imports_Cons_Inr)
  from "2.prems"(2) have sub0: "sub0 \<in> set submodule_names"
    and rest: "set (map fst rest) \<subseteq> set submodule_names" by simp_all
  from from_import_events [OF one] obtain inits where
    i: "events s1 = events s @ inits @ map Bind ns0" "\<forall>e\<in>set inits. is_init e"
       "cached s sub0 \<or> Init sub0 \<in> set inits" by blast
  from "2.IH" [OF one run rest] obtain evs2 where
    e2: "events t = events s1 @ evs2"
        "filter (\<lambda>e. \<not> is_init e) evs2 = map Bind (bound_names rest)"
        "\<forall>(sub, ns)\<in>set rest. \<forall>n\<in>set ns.
              \<exists>pre post. evs2 = pre @ Bind n # post \<and> (cached s1 sub \<or> Init sub \<in> set pre)"
    by blast
  let ?evs1 = "inits @ map Bind ns0"
  let ?evs = "?evs1 @ evs2"
  have a: "events t = events s @ ?evs" using i(1) e2(1) by simp
  have b: "filter (\<lambda>e. \<not> is_init e) ?evs = map Bind (bound_names ((sub0, ns0) # rest))"
    using i(2) e2(2) by (simp add: filter_not_init_inits filter_not_init_Bind bound_names_Cons)
  have step: "cached s k \<or> Init k \<in> set ?evs1" if "cached s1 k" "k \<in> set submodule_names" for k
  proof (cases "cached s k")
    case True
    then show ?thesis by simp
  next
    case False
    from from_import_evolves [OF sub0, of env ns0 s] one have "evolves env (set ns0) s s1" by simp
    from evolves_inits [OF this] obtain evs where
      evs: "events s1 = events s @ evs"
           "set (init_names evs) = {k \<in> set submodule_names. cached s1 k \<and> \<not> cached s k}" by blast
    from evs(1) i(1) have "evs = ?evs1" by simp
    with evs(2) that False have "k \<in> set (init_names ?evs1)" by simp
    then show ?thesis by (simp only: init_names_mem) simp
  qed
  have c: "\<forall>(sub, ns)\<in>set ((sub0, ns0) # rest). \<forall>n\<in>set ns.
              \<exists>pre post. ?evs = pre @ Bind n # post \<and> (cached s sub \<or> Init sub \<in> set pre)"
  proof (rule ballI, rule case_prodI2, rule ballI)
    fix p sub ns n
    assume mem: "p \<in> set ((sub0, ns0) # rest)" and p: "p = (sub, ns)" and n: "n \<in> set ns"
    show "\<exists>pre post. ?evs = pre @ Bind n # post \<and> (cached s sub \<or> Init sub \<in> set pre)"
    proof (cases "(sub, ns) \<in> set rest")
      case True
      with e2(3) n obtain pre post where
        pp: "evs2 = pre @ Bind n # post" "cached s1 sub \<or> Init sub \<in> set pre" by blast
      from True rest have six: "sub \<in> set submodule_names" by force
      have "?evs = (?evs1 @ pre) @ Bind n # post" using pp(1) by simp
      moreover have "cached s sub \<or> Init sub \<in> set (?evs1 @ pre)"
        using pp(2) step [OF _ six] by auto
      ultimately show ?thesis by blast
    next
      case False
      with mem p have eq: "sub = sub0" "ns = ns0" by auto
      from n eq obtain a b where ab: "ns0 = a @ n # b" by (auto dest: split_list)
      have "?evs = (inits @ map Bind a) @ Bind n # (map Bind b @ evs2)"
        by (simp add: ab)
      moreover have "cached s sub \<or> Init sub \<in> set (inits @ map Bind a)"
        using i(3) eq by auto
      ultimately show ?thesis by blast
    qed
  qed
  from a b c show ?case by blast
qed

lemma exec_imports_public_keys:
  assumes "exec_imports env stmts s = Inr t"
    and "set (map fst stmts) \<subseteq> set submodule_names"
    and "\<forall>k\<in>set submodule_names. \<not> public_name k"
    and "\<forall>n\<in>set (bound_names stmts). public_name n"
    and "distinct (bound_names stmts)"
    and "set (bound_names stmts) \<inter> set (map fst (pkg_dict s)) = {}"
  shows "filter public_name (map fst (pkg_dict t)) =
         filter public_name (map fst (pkg_dict s)) @ bound_names stmts"
  using assms
proof (induction env stmts s rule: exec_imports.induct)
  case (1 env s)
  then show ?case by (simp add: bound_names_Nil)
next
  case (2 env sub ns rest s)
  from "2.prems"(1) obtain s1 where one: "from_import env sub ns s = Inr s1"
    and run: "exec_imports env rest s1 = Inr t" by (rule exec_imports_Cons_Inr)
  from "2.prems"(2) have sub: "sub \<in> set submodule_names"
    and rest: "set (map fst rest) \<subseteq> set submodule_names" by simp_all
  from "2.prems"(4) have pub: "\<forall>n\<in>set ns. public_name n"
    and pubr: "\<forall>n\<in>set (bound_names rest). public_name n" by (simp_all add: bound_names_Cons)
  from "2.prems"(5) have d: "distinct ns" and dr: "distinct (bound_names rest)"
    and disj: "set ns \<inter> set (bound_names rest) = {}" by (auto simp: bound_names_Cons)
  from "2.prems"(6) have f: "set ns \<inter> set (map fst (pkg_dict s)) = {}"
    and fr: "set (bound_names rest) \<inter> set (map fst (pkg_dict s)) = {}"
    by (auto simp: bound_names_Cons)
  have k1: "filter public_name (map fst (pkg_dict s1)) =
            filter public_name (map fst (pkg_dict s)) @ ns"
    by (rule from_import_public_keys [OF one "2.prems"(3) sub pub d f])
  from from_import_evolves [OF sub, of env ns s] one have "evolves env (set ns) s s1" by simp
  from evolves_keys_subset [OF this]
  have "set (map fst (pkg_dict s1)) \<subseteq> set (map fst (pkg_dict s)) \<union> set submodule_names \<union> set ns" .
  with fr disj pubr "2.prems"(3) have "set (bound_names rest) \<inter> set (map fst (pkg_dict s1)) = {}"
    by blast
  from "2.IH" [OF one run rest "2.prems"(3) pubr dr this] k1 show ?case
    by (simp add: bound_names_Cons)
qed

lemma exec_imports_error:
  assumes "exec_imports env stmts s = Inl (x, t)"
  shows "(\<exists>sub\<in>set (map fst stmts). \<exists>e s'. x = Raised e \<and>
              fst (find_and_load env (absolute_name sub) s') = Inl e) \<or>
         (\<exists>(sub, ns)\<in>set stmts. \<exists>n\<in>set ns. \<exists>m. x = ImportError n (absolute_name sub) \<and>
              map_of (sys_modules t) (absolute_name sub) = Some m \<and>
              map_of (mod_dict m) n = None)"
  using assms
proof (induction env stmts s rule: exec_imports.induct)
  case (1 env s)
  then show ?case by simp
next
  case (2 env sub ns rest s)
  show ?case
  proof (cases rule: exec_imports_step [of env sub ns s rest])
    case (Stop x' t')
    with "2.prems" have "from_import env sub ns s = Inl (x, t)" by simp
    from from_import_error [OF this] show ?thesis by fastforce
  next
    case (Go s1)
    with "2.prems" have "exec_imports env rest s1 = Inl (x, t)" by simp
    from "2.IH" [OF Go(1) this] show ?thesis by fastforce
  qed
qed

lemma exec_imports_rebind:
  assumes "\<forall>(sub, ns)\<in>set stmts. \<exists>m. map_of (sys_modules s) (absolute_name sub) = Some m \<and>
             (\<forall>n\<in>set ns. map_of (mod_dict m) n \<noteq> None \<and>
                          map_of (pkg_dict s) n = map_of (mod_dict m) n)"
  shows "exec_imports env stmts s = Inr (s\<lparr>events := events s @ map Bind (bound_names stmts)\<rparr>)"
  using assms
proof (induction env stmts s rule: exec_imports.induct)
  case (1 env s)
  show ?case by (simp add: bound_names_Nil)
next
  case (2 env sub ns rest s)
  from "2.prems" obtain m where m: "map_of (sys_modules s) (absolute_name sub) = Some m"
    "\<forall>n\<in>set ns. map_of (mod_dict m) n \<noteq> None \<and> map_of (pkg_dict s) n = map_of (mod_dict m) n"
    by auto
  let ?s1 = "s\<lparr>events := events s @ map Bind ns\<rparr>"
  have one: "from_import env sub ns s = Inr ?s1" by (rule from_import_rebind [OF m])
  from "2.prems" have "\<forall>(sub, ns)\<in>set rest. \<exists>m. map_of (sys_modules ?s1) (absolute_name sub) = Some m \<and>
             (\<forall>n\<in>set ns. map_of (mod_dict m) n \<noteq> None \<and>
                          map_of (pkg_dict ?s1) n = map_of (mod_dict m) n)"
    by simp
  from "2.IH" [OF one this] one show ?case by (simp add: bound_names_Cons)
qed

lemma exec_imports_all_cached:
  assumes "\<forall>sub\<in>set (map fst stmts). cached s sub"
  shows "sys_modules (final (exec_imports env stmts s)) = sys_modules s \<and>
         world (final (exec_imports env stmts s)) = world s"
  using assms
proof (induction env stmts s rule: exec_imports.induct)
  case (1 env s)
  show ?case by simp
next
  case (2 env sub ns rest s)
  from "2.prems" have c: "cached s sub" by simp
  note fr = from_import_cached_frame [OF c, of env ns]
  show ?case
  proof (cases rule: exec_imports_step [of env sub ns s rest])
    case (Stop x t)
    then show ?thesis using fr by simp
  next
    case (Go s1)
    with fr have eq: "sys_modules s1 = sys_modules s" "world s1 = world s" by simp_all
    with "2.prems" have "\<forall>sub\<in>set (map fst rest). cached s1 sub" by (simp add: cached_def)
    from "2.IH" [OF Go(1) this] eq Go(2) show ?thesis by simp
  qed
qed

subsection \<open>When a run succeeds\<close>

lemma enter_siblings_origin:
  assumes "map_of (sys_modules (enter_siblings sub sib s)) a = Some m"
  shows "map_of (sys_modules s) a = Some m \<or> (\<exists>k. a = absolute_name k \<and> (k, m) \<in> set sib)"
  using assms
proof (induction sub sib s rule: enter_siblings.induct)
  case (1 sub s)
  then show ?case by simp
next
  case (2 sub k m' rest s)
  let ?s1 = "if k \<in> set submodule_names \<and> k \<noteq> sub \<and> \<not> cached s k then enter_module k m' s else s"
  from "2.prems" have "map_of (sys_modules (enter_siblings sub rest ?s1)) a = Some m" by simp
  from "2.IH" [OF this] show ?case
  proof
    assume a: "map_of (sys_modules ?s1) a = Some m"
    show ?thesis
    proof (cases "k \<in> set submodule_names \<and> k \<noteq> sub \<and> \<not> cached s k")
      case True
      with a have "map_of (sys_modules (enter_module k m' s)) a = Some m" by simp
      then have "map_of (sys_modules s) a = Some m \<or> (a = absolute_name k \<and> m = m')"
        by (auto simp: lookup_enter_module simp del: enter_module_simps(1)
            split: option.splits if_splits)
      then show ?thesis by auto
    next
      case False
      with a show ?thesis by simp
    qed
  next
    assume "\<exists>k. a = absolute_name k \<and> (k, m) \<in> set rest"
    then show ?thesis by auto
  qed
qed

lemma from_import_origin:
  assumes "from_import env sub ns s = Inr t" and "map_of (sys_modules t) a = Some m"
  shows "map_of (sys_modules s) a = Some m \<or>
         (\<exists>r w sib. find_and_load env (absolute_name sub) s = (r, w, sib) \<and>
            ((\<exists>k. a = absolute_name k \<and> (k, m) \<in> set sib) \<or> (a = absolute_name sub \<and> r = Inr m)))"
proof -
  from assms(1) obtain m0 s1 where imp: "import_submodule env sub s = Inr (m0, s1)"
    and run: "bind_names m0 ns s1 = Inr t" by (rule from_import_Inr)
  from bind_names_frame [of m0 ns s1 t] run assms(2)
  have look: "map_of (sys_modules s1) a = Some m" by simp
  from import_submodule_Inr [OF imp] show ?thesis
  proof (elim disjE conjE exE)
    assume "s1 = s"
    with look show ?thesis by simp
  next
    fix w sib
    assume fl: "find_and_load env (absolute_name sub) s = (Inr m0, w, sib)"
      and s1: "s1 = (enter_module sub m0 (enter_siblings sub sib s))\<lparr>world := w\<rparr>"
    from look s1 have "map_of (sys_modules (enter_module sub m0 (enter_siblings sub sib s))) a = Some m"
      by simp
    then have "map_of (sys_modules (enter_siblings sub sib s)) a = Some m \<or>
               (a = absolute_name sub \<and> m = m0)"
      by (auto simp: lookup_enter_module simp del: enter_module_simps(1)
          split: option.splits if_splits)
    with enter_siblings_origin [of sub sib s a m] fl show ?thesis by blast
  qed
qed

lemma from_import_succeeds:
  assumes "\<And>m. map_of (sys_modules s) (absolute_name sub) = Some m \<Longrightarrow>
                \<forall>n\<in>set ns. map_of (mod_dict m) n \<noteq> None"
    and "\<exists>m. fst (find_and_load env (absolute_name sub) s) = Inr m \<and>
              (\<forall>n\<in>set ns. map_of (mod_dict m) n \<noteq> None)"
  shows "\<exists>t. from_import env sub ns s = Inr t"
proof (cases rule: from_import_cases [of env sub s ns])
  case (Raises t x)
  with assms(2) show ?thesis using import_submodule_Inl [OF Raises(1)] by auto
next
  case (Missing m s1 n t)
  have "\<forall>n\<in>set ns. map_of (mod_dict m) n \<noteq> None"
    using import_submodule_Inr [OF Missing(1)] assms by auto
  with bind_names_missing [OF Missing(2)] show ?thesis by blast
next
  case (Bound m s1 t)
  then show ?thesis by blast
qed

lemma exec_imports_succeeds:
  assumes "\<forall>(sub, ns)\<in>set stmts. \<forall>m. map_of (sys_modules s) (absolute_name sub) = Some m \<longrightarrow>
             (\<forall>n\<in>set ns. map_of (mod_dict m) n \<noteq> None)"
    and "\<forall>a s' r w sib. find_and_load env a s' = (r, w, sib) \<longrightarrow>
           (\<forall>(sub, ns)\<in>set stmts.
              (\<forall>m. (sub, m) \<in> set sib \<longrightarrow> (\<forall>n\<in>set ns. map_of (mod_dict m) n \<noteq> None)) \<and>
              (a = absolute_name sub \<longrightarrow>
                 (\<exists>m. r = Inr m \<and> (\<forall>n\<in>set ns. map_of (mod_dict m) n \<noteq> None))))"
  shows "\<exists>t. exec_imports env stmts s = Inr t"
  using assms
proof (induction env stmts s rule: exec_imports.induct)
  case (1 env s)
  show ?case by simp
next
  case (2 env sub ns rest s)
  obtain r w sib where fl: "find_and_load env (absolute_name sub) s = (r, w, sib)"
    by (cases "find_and_load env (absolute_name sub) s")
  from "2.prems"(1) have a: "\<And>m. map_of (sys_modules s) (absolute_name sub) = Some m \<Longrightarrow>
      \<forall>n\<in>set ns. map_of (mod_dict m) n \<noteq> None" by auto
  from "2.prems"(2) [rule_format, OF fl, of "(sub, ns)"] fl
  have b: "\<exists>m. fst (find_and_load env (absolute_name sub) s) = Inr m \<and>
      (\<forall>n\<in>set ns. map_of (mod_dict m) n \<noteq> None)" by auto
  from from_import_succeeds [OF a b] obtain s1 where one: "from_import env sub ns s = Inr s1"
    by blast
  have inv: "\<forall>(sub', ns')\<in>set rest. \<forall>m. map_of (sys_modules s1) (absolute_name sub') = Some m \<longrightarrow>
             (\<forall>n\<in>set ns'. map_of (mod_dict m) n \<noteq> None)"
  proof (rule ballI, rule case_prodI2, intro allI impI)
    fix p sub' ns' m
    assume mem: "p \<in> set rest" and p: "p = (sub', ns')"
      and look: "map_of (sys_modules s1) (absolute_name sub') = Some m"
    from mem p have mem': "(sub', ns') \<in> set ((sub, ns) # rest)" by simp
    from from_import_origin [OF one look]
    show "\<forall>n\<in>set ns'. map_of (mod_dict m) n \<noteq> None"
    proof (elim disjE exE conjE)
      assume "map_of (sys_modules s) (absolute_name sub') = Some m"
      with "2.prems"(1) mem' show ?thesis by blast
    next
      fix r' w' sib' k
      assume fl': "find_and_load env (absolute_name sub) s = (r', w', sib')"
        and k: "absolute_name sub' = absolute_name k" "(k, m) \<in> set sib'"
      from k(1) have "k = sub'" by (simp add: absolute_name_inj)
      with k(2) "2.prems"(2) [rule_format, OF fl' mem'] show ?thesis by auto
    next
      fix r' w' sib'
      assume fl': "find_and_load env (absolute_name sub) s = (r', w', sib')"
        and own: "absolute_name sub' = absolute_name sub" "r' = Inr m"
      from own "2.prems"(2) [rule_format, OF fl' mem'] show ?thesis by auto
    qed
  qed
  have rest2: "\<forall>a s' r w sib. find_and_load env a s' = (r, w, sib) \<longrightarrow>
           (\<forall>(sub, ns)\<in>set rest.
              (\<forall>m. (sub, m) \<in> set sib \<longrightarrow> (\<forall>n\<in>set ns. map_of (mod_dict m) n \<noteq> None)) \<and>
              (a = absolute_name sub \<longrightarrow>
                 (\<exists>m. r = Inr m \<and> (\<forall>n\<in>set ns. map_of (mod_dict m) n \<noteq> None))))"
    using "2.prems"(2) by (simp del: split_paired_All)
  from "2.IH" [OF one inv rest2] one show ?case by simp
qed

subsection \<open>The names of the file\<close>

lemma imported_names_eq: "imported_names = listed_names"
  by (simp add: imported_names_def listed_names_def hamiltonians_init_def)

lemma bound_names_init: "bound_names hamiltonians_init = listed_names"
  by (simp add: bound_names_def imported_names_eq [symmetric] imported_names_def)

lemma submodule_names_eq:
  "submodule_names = [''_chemical_series'', ''_hubbard'', ''_jellium'', ''_mean_field_dwave'',
                      ''_molecular_data'', ''_plane_wave_hamiltonian'']"
  by (simp add: submodule_names_def hamiltonians_init_def)

lemma statement_of_listed:
  assumes "n \<in> set listed_names"
  obtains sub ns where "(sub, ns) \<in> set hamiltonians_init" and "n \<in> set ns"
proof -
  from assms have "n \<in> set imported_names" by (simp add: imported_names_eq)
  then show thesis using that by (auto simp: imported_names_def)
qed

lemma statement_of_submodule:
  assumes "sub \<in> set submodule_names"
  obtains ns where "(sub, ns) \<in> set hamiltonians_init"
  using assms that by (auto simp: submodule_names_def)

lemma submodule_of_statement: "(sub, ns) \<in> set hamiltonians_init \<Longrightarrow> sub \<in> set submodule_names"
  by (force simp: submodule_names_def)

lemma statements_submodules: "set (map fst hamiltonians_init) \<subseteq> set submodule_names"
  by (simp add: submodule_names_def)

lemma distinct_listed_names: "distinct listed_names"
  by (simp add: listed_names_def)

lemma listed_not_submodules: "set listed_names \<inter> set submodule_names = {}"
  by (simp add: listed_names_def submodule_names_eq)

lemma listed_not_attrs: "set listed_names \<inter> set module_attrs = {}"
  by (simp add: listed_names_def module_attrs_def)

lemma submodules_not_attrs: "set submodule_names \<inter> set module_attrs = {}"
  by (simp add: submodule_names_eq module_attrs_def)

lemma keys_new_module_dict: "map fst (new_module_dict env) = module_attrs"
  by (simp add: new_module_dict_def comp_def)

lemma map_of_new_module_dict_None:
  "k \<notin> set module_attrs \<Longrightarrow> map_of (new_module_dict env) k = None"
proof -
  assume "k \<notin> set module_attrs"
  then have "k \<notin> set (map fst (new_module_dict env))" unfolding keys_new_module_dict .
  then show ?thesis by (simp add: map_of_eq_None_iff)
qed

lemma submodules_not_public: "\<forall>sub\<in>set submodule_names. \<not> public_name sub"
  by (simp add: submodule_names_eq public_name_def)

lemma listed_public: "\<forall>n\<in>set listed_names. public_name n"
  by (simp add: listed_names_def public_name_def)

lemma attrs_not_public: "filter public_name module_attrs = []"
  by (simp add: module_attrs_def public_name_def)

lemma all_not_bound:
  "''__all__'' \<notin> set module_attrs \<union> set submodule_names \<union> set listed_names"
  by (simp add: module_attrs_def submodule_names_eq listed_names_def)

subsection \<open>Importing the package\<close>

lemma new_package_simps [simp]:
  "sys_modules (new_package env s) = sys_modules s"
  "pkg_loaded (new_package env s) = True"
  "pkg_dict (new_package env s) = new_module_dict env"
  "world (new_package env s) = enter_package env (world s)"
  "events (new_package env s) = events s"
  by (simp_all add: new_package_def)

lemma cached_new_package [simp]: "cached (new_package env s) sub = cached s sub"
  by (simp add: cached_def)

lemma import_package_Inr:
  assumes "\<not> pkg_loaded s" and "import_package env s = Inr t"
  obtains t' where "exec_imports env hamiltonians_init (new_package env s) = Inr t'"
    and "t = t'\<lparr>world := leave_package env (world t')\<rparr>"
  using assms that by (auto simp: import_package_def exec_body_def split: sum.splits)

lemma import_package_Inl:
  assumes "\<not> pkg_loaded s"
  shows "import_package env s = Inl (x, t) \<longleftrightarrow>
         (\<exists>t'. exec_imports env hamiltonians_init (new_package env s) = Inl (x, t') \<and>
               t = t'\<lparr>pkg_loaded := False\<rparr>)"
  using assms by (auto simp: import_package_def exec_body_def split: sum.splits)

lemma import_package_final:
  assumes "\<not> pkg_loaded s"
  shows "pkg_dict (final (import_package env s)) =
           pkg_dict (final (exec_imports env hamiltonians_init (new_package env s)))"
    and "sys_modules (final (import_package env s)) =
           sys_modules (final (exec_imports env hamiltonians_init (new_package env s)))"
    and "events (final (import_package env s)) =
           events (final (exec_imports env hamiltonians_init (new_package env s)))"
    and "world (final (import_package env s)) =
           world (final (exec_imports env hamiltonians_init (new_package env s))) \<or>
         world (final (import_package env s)) =
           leave_package env (world (final (exec_imports env hamiltonians_init (new_package env s))))"
  using assms by (auto simp: import_package_def exec_body_def split: sum.splits)

lemma import_package_loaded:
  assumes "import_package env s = Inr t"
  shows "pkg_loaded t"
proof (cases "pkg_loaded s")
  case True
  with assms show ?thesis by (simp add: import_package_def)
next
  case False
  from import_package_Inr [OF False assms] obtain t' where
    run: "exec_imports env hamiltonians_init (new_package env s) = Inr t'"
    and t: "t = t'\<lparr>world := leave_package env (world t')\<rparr>" by blast
  from exec_imports_evolves [OF statements_submodules, of env "new_package env s"] run
  have "evolves env (set (bound_names hamiltonians_init)) (new_package env s) t'" by simp
  from evolves_pkg_loaded [OF this] t show ?thesis by simp
qed

text \<open>The body of the file, run in the new package, as a sequence of steps.\<close>

lemma exec_body_evolves:
  "evolves env (set listed_names) (new_package env s)
     (final (exec_imports env hamiltonians_init (new_package env s)))"
  using exec_imports_evolves [OF statements_submodules, of env "new_package env s"]
  by (simp only: bound_names_init)

lemma exec_body_bindings:
  assumes "exec_imports env hamiltonians_init s = Inr t" and "(sub, ns) \<in> set hamiltonians_init"
  shows "\<exists>m. map_of (sys_modules t) (absolute_name sub) = Some m \<and>
             (\<forall>n\<in>set ns. map_of (mod_dict m) n \<noteq> None \<and>
                          map_of (pkg_dict t) n = map_of (mod_dict m) n)"
proof (rule exec_imports_bindings [OF assms(1) statements_submodules _ _ assms(2)])
  show "distinct (bound_names hamiltonians_init)"
    by (simp only: bound_names_init distinct_listed_names)
  show "set (bound_names hamiltonians_init) \<inter> set submodule_names = {}"
    by (simp only: bound_names_init listed_not_submodules)
qed

subsection \<open>The example runs\<close>

lemmas run_defs = import_package_def exec_body_def hamiltonians_init_def from_import_def
  import_submodule_def example_env_def broken_env_def missing_env_def fresh_interp_def
  other_interp_def example_modules_def example_siblings_def absolute_name_def package_name_def
  new_package_def new_module_dict_def module_attrs_def enter_module_def cached_def
  submodule_names_def example_loaded_def other_loaded_def failed_interp_def retried_interp_def
  missing_interp_def

lemma example_run: "import_package example_env fresh_interp = Inr example_loaded"
  by (simp add: run_defs)

lemma other_run: "import_package example_env other_interp = Inr other_loaded"
  by (simp add: run_defs)

lemma broken_run: "import_package broken_env fresh_interp = Inl (Raised ''boom'', failed_interp)"
  by (simp add: run_defs)

lemma retried_run: "import_package example_env failed_interp = Inr retried_interp"
  by (simp add: run_defs)

lemma missing_run:
  "import_package missing_env fresh_interp =
     Inl (ImportError ''fermi_hubbard'' ''openfermion.hamiltonians._hubbard'', missing_interp)"
  by (simp add: run_defs)

subsection \<open>A load of the package\<close>

lemma import_package_run:
  assumes "\<not> pkg_loaded s" and "import_package env s = Inr t"
  obtains t' where "exec_imports env hamiltonians_init (new_package env s) = Inr t'"
    and "evolves env (set listed_names) (new_package env s) t'"
    and "sys_modules t = sys_modules t'" and "pkg_dict t = pkg_dict t'"
    and "events t = events t'" and "world t = leave_package env (world t')"
proof -
  from import_package_Inr [OF assms] obtain t' where
    run: "exec_imports env hamiltonians_init (new_package env s) = Inr t'"
    and t: "t = t'\<lparr>world := leave_package env (world t')\<rparr>" by blast
  from exec_body_evolves [of env s] run
  have "evolves env (set listed_names) (new_package env s) t'" by simp
  with run t that show thesis by simp
qed

lemma import_package_bindings:
  assumes "\<not> pkg_loaded s" and "import_package env s = Inr t"
    and "(sub, ns) \<in> set hamiltonians_init"
  shows "\<exists>m. map_of (sys_modules t) (absolute_name sub) = Some m \<and>
             (\<forall>n\<in>set ns. map_of (mod_dict m) n \<noteq> None \<and>
                          map_of (pkg_dict t) n = map_of (mod_dict m) n)"
proof -
  from assms(1,2) obtain t' where
    run: "exec_imports env hamiltonians_init (new_package env s) = Inr t'"
    and eq: "sys_modules t = sys_modules t'" "pkg_dict t = pkg_dict t'"
    by (rule import_package_run)
  from exec_body_bindings [OF run assms(3)] show ?thesis by (simp only: eq)
qed

lemma import_package_cached_attr:
  assumes "\<not> pkg_loaded s" and "import_package env s = Inr t"
    and "sub \<in> set submodule_names" and "cached s sub"
  shows "map_of (pkg_dict t) sub = None"
proof -
  from assms(1,2) obtain t' where
    ev: "evolves env (set listed_names) (new_package env s) t'"
    and eq: "pkg_dict t = pkg_dict t'"
    by (rule import_package_run)
  from assms(4) have c: "cached (new_package env s) sub" by simp
  from evolves_cached_attr [OF ev listed_not_submodules c assms(3)]
  have "map_of (pkg_dict t') sub = map_of (new_module_dict env) sub" by simp
  moreover from assms(3) submodules_not_attrs have "sub \<notin> set module_attrs" by blast
  ultimately show ?thesis by (simp add: eq map_of_new_module_dict_None)
qed

lemma import_package_fresh_attr:
  assumes "\<not> pkg_loaded s" and "import_package env s = Inr t"
    and "sub \<in> set submodule_names" and "\<not> cached s sub"
  shows "\<exists>m. map_of (sys_modules t) (absolute_name sub) = Some m \<and>
             map_of (pkg_dict t) sub = Some (mod_obj m)"
proof -
  from assms(1,2) obtain t' where
    ev: "evolves env (set listed_names) (new_package env s) t'"
    and eq: "sys_modules t = sys_modules t'" "pkg_dict t = pkg_dict t'"
    by (rule import_package_run)
  from assms(3) obtain ns where mem: "(sub, ns) \<in> set hamiltonians_init"
    by (rule statement_of_submodule)
  from import_package_bindings [OF assms(1,2) mem] obtain m where
    m: "map_of (sys_modules t) (absolute_name sub) = Some m" by blast
  from assms(4) have c: "\<not> cached (new_package env s) sub" by simp
  from evolves_fresh_attr [OF ev listed_not_submodules c assms(3)] m
  have "map_of (pkg_dict t') sub = Some (mod_obj m)" by (simp add: eq)
  with m show ?thesis by (simp add: eq)
qed

lemma import_package_untouched:
  assumes "\<not> pkg_loaded s" and "import_package env s = Inr t"
    and "k \<notin> set submodule_names" and "k \<notin> set listed_names"
  shows "map_of (pkg_dict t) k = map_of (new_module_dict env) k"
proof -
  from assms(1,2) obtain t' where
    ev: "evolves env (set listed_names) (new_package env s) t'"
    and eq: "pkg_dict t = pkg_dict t'"
    by (rule import_package_run)
  from evolves_untouched [OF ev assms(3,4)] show ?thesis by (simp add: eq)
qed

lemma import_package_keys_subset:
  assumes "\<not> pkg_loaded s"
  shows "set (map fst (pkg_dict (final (import_package env s)))) \<subseteq>
         set module_attrs \<union> set submodule_names \<union> set listed_names"
  using evolves_keys_subset [OF exec_body_evolves, of env s]
  by (simp only: import_package_final(1) [OF assms] new_package_simps keys_new_module_dict)

lemma exec_body_cached_after:
  assumes "exec_imports env hamiltonians_init s = Inr t" and "sub \<in> set submodule_names"
  shows "cached t sub"
proof -
  from assms(2) obtain ns where "(sub, ns) \<in> set hamiltonians_init"
    by (rule statement_of_submodule)
  from exec_body_bindings [OF assms(1) this] show ?thesis by (auto simp: cached_def)
qed

lemma from_import_raises:
  assumes "\<not> cached s sub" and "find_and_load env (absolute_name sub) s = (Inl e, w, sib)"
  shows "from_import env sub ns s = Inl (Raised e, (enter_siblings sub sib s)\<lparr>world := w\<rparr>)"
  using assms by (simp add: from_import_def import_submodule_def cached_def)

lemma import_submodule_resolves:
  assumes "map_of (sys_modules s) (absolute_name sub) = Some m \<or>
           (\<not> cached s sub \<and> fst (find_and_load env (absolute_name sub) s) = Inr m)"
  shows "\<exists>s1. import_submodule env sub s = Inr (m, s1)"
  using assms
proof
  assume "map_of (sys_modules s) (absolute_name sub) = Some m"
  then show ?thesis by (simp add: import_submodule_def)
next
  assume a: "\<not> cached s sub \<and> fst (find_and_load env (absolute_name sub) s) = Inr m"
  obtain r w sib where f: "find_and_load env (absolute_name sub) s = (r, w, sib)"
    by (cases "find_and_load env (absolute_name sub) s")
  with a have "r = Inr m" by simp
  with a f show ?thesis by (simp add: import_submodule_def cached_def)
qed

lemma from_import_first_missing:
  assumes "map_of (sys_modules s) (absolute_name sub) = Some m \<or>
           (\<not> cached s sub \<and> fst (find_and_load env (absolute_name sub) s) = Inr m)"
    and "find (\<lambda>n. map_of (mod_dict m) n = None) ns = Some n"
  shows "\<exists>t. from_import env sub ns s = Inl (ImportError n (absolute_name sub), t)"
proof -
  from import_submodule_resolves [OF assms(1)] obtain s1 where
    imp: "import_submodule env sub s = Inr (m, s1)" by blast
  from bind_names_first_missing [OF assms(2), of s1] obtain t where
    "bind_names m ns s1 = Inl (n, t)" by blast
  with imp show ?thesis by (simp add: from_import_def)
qed

lemma import_package_stops:
  assumes "\<not> pkg_loaded s"
    and "hamiltonians_init = pre @ (sub, ns) # post"
    and "exec_imports env pre (new_package env s) = Inr s1"
    and "from_import env sub ns s1 = Inl (x, t1)"
  shows "import_package env s = Inl (x, t1\<lparr>pkg_loaded := False\<rparr>)"
proof -
  from assms(4) have "exec_imports env ((sub, ns) # post) s1 = Inl (x, t1)" by simp
  with assms(3) have "exec_imports env (pre @ (sub, ns) # post) (new_package env s) = Inl (x, t1)"
    by (simp add: exec_imports_append)
  with assms(1,2) show ?thesis by (simp add: import_package_def exec_body_def)
qed

section \<open>The claims\<close>

text \<open>
  C1. For every name of the list in section 6 of the specification, after the package is
  imported the name is bound in the package namespace, and the object it is bound to is
  the very object that the submodule the file imports it from has under that name: the
  module in \<^verbatim>\<open>sys.modules\<close> under the submodule's name holds the same reference.
\<close>

theorem reexport_identity:
  assumes "\<not> pkg_loaded s"
    and "import_package env s = Inr t"
    and "n \<in> set listed_names"
  shows "\<exists>sub ns m v. (sub, ns) \<in> set hamiltonians_init \<and> n \<in> set ns \<and>
           map_of (sys_modules t) (absolute_name sub) = Some m \<and>
           map_of (mod_dict m) n = Some v \<and>
           map_of (pkg_dict t) n = Some v"
proof -
  from assms(3) obtain sub ns where mem: "(sub, ns) \<in> set hamiltonians_init" and n: "n \<in> set ns"
    by (rule statement_of_listed)
  from import_package_bindings [OF assms(1,2) mem] n obtain m where
    m: "map_of (sys_modules t) (absolute_name sub) = Some m"
    and b: "map_of (mod_dict m) n \<noteq> None" "map_of (pkg_dict t) n = map_of (mod_dict m) n"
    by blast
  from b(1) obtain v where v: "map_of (mod_dict m) n = Some v" by auto
  with b(2) have "map_of (pkg_dict t) n = Some v" by simp
  with mem n m v show ?thesis by blast
qed

theorem reexport_identity_witness:
  "\<not> pkg_loaded fresh_interp \<and>
   import_package example_env fresh_interp = Inr example_loaded \<and>
   ''fermi_hubbard'' \<in> set listed_names \<and>
   (\<exists>sub ns m v. (sub, ns) \<in> set hamiltonians_init \<and> ''fermi_hubbard'' \<in> set ns \<and>
      map_of (sys_modules example_loaded) (absolute_name sub) = Some m \<and>
      map_of (mod_dict m) ''fermi_hubbard'' = Some v \<and>
      map_of (pkg_dict example_loaded) ''fermi_hubbard'' = Some v)"
proof -
  have a: "\<not> pkg_loaded fresh_interp" by (simp add: fresh_interp_def)
  have b: "''fermi_hubbard'' \<in> set listed_names" by (simp add: listed_names_def)
  from reexport_identity [OF a example_run b] a b example_run show ?thesis by blast
qed







text \<open>
  C4. Importing the package again is idempotent. Once an import has succeeded, any number
  of further imports return the interpreter exactly as it is: the file does not run
  again, so no object is made anew and nothing is added to the module cache, the world or
  the record of events. Even running the file itself again in the loaded package (a
  reload), in whatever environment, finds every submodule in the module cache and only
  binds the 21 names again to the objects they are bound to already.
\<close>

theorem reimport_idempotent:
  assumes "import_package env s = Inr t"
  shows "import_times env' k t = Inr t \<and>
         (\<not> pkg_loaded s \<longrightarrow>
            exec_body env' t = Inr (t\<lparr>events := events t @ map Bind listed_names\<rparr>))"
proof
  have loaded: "pkg_loaded t" using assms by (rule import_package_loaded)
  then have again: "import_package env' t = Inr t" by (simp add: import_package_def)
  show "import_times env' k t = Inr t" by (induction k) (simp_all add: again)
  show "\<not> pkg_loaded s \<longrightarrow>
            exec_body env' t = Inr (t\<lparr>events := events t @ map Bind listed_names\<rparr>)"
  proof
    assume fresh: "\<not> pkg_loaded s"
    have "\<forall>(sub, ns)\<in>set hamiltonians_init.
            \<exists>m. map_of (sys_modules t) (absolute_name sub) = Some m \<and>
             (\<forall>n\<in>set ns. map_of (mod_dict m) n \<noteq> None \<and>
                          map_of (pkg_dict t) n = map_of (mod_dict m) n)"
      using import_package_bindings [OF fresh assms] by blast
    from exec_imports_rebind [OF this, of env']
    show "exec_body env' t = Inr (t\<lparr>events := events t @ map Bind listed_names\<rparr>)"
      by (simp only: exec_body_def bound_names_init)
  qed
qed

theorem reimport_idempotent_witness:
  "import_package example_env fresh_interp = Inr example_loaded \<and>
   import_times broken_env 3 example_loaded = Inr example_loaded \<and>
   \<not> pkg_loaded fresh_interp \<and>
   exec_body broken_env example_loaded =
     Inr (example_loaded\<lparr>events := events example_loaded @ map Bind listed_names\<rparr>)"
proof -
  have a: "\<not> pkg_loaded fresh_interp" by (simp add: fresh_interp_def)
  from reimport_idempotent [OF example_run, of broken_env 3] example_run a show ?thesis by blast
qed

text \<open>
  C5. The file has no error conditions of its own, and what fails in a submodule reaches
  the importer unchanged. (1) Every exception that importing the package raises is either
  the very exception that finding or running one of the six submodules raised, or the
  interpreter's \<^verbatim>\<open>ImportError\<close> for a listed name that the submodule does not have.
  (2) A broken submodule is not caught: when the statements before a given one have run
  and the submodule of that statement, not cached, raises \<open>e\<close>, the import of the package
  raises \<open>e\<close>, in the state the submodule left. (3) A missing symbol is not passed over:
  when the statements before a given one have run and the module its submodule resolves
  to, cached or just initialised, lacks one of the names listed, the import of the
  package raises the \<^verbatim>\<open>ImportError\<close> for the first such name. (4) When every module that
  a submodule name can resolve to has the names listed for it, the import succeeds.
\<close>

theorem failures_propagate_unchanged:
  assumes "\<not> pkg_loaded s"
  shows "(\<forall>x t. import_package env s = Inl (x, t) \<longrightarrow>
            (\<exists>sub\<in>set submodule_names. \<exists>e s'. x = Raised e \<and>
                fst (find_and_load env (absolute_name sub) s') = Inl e) \<or>
            (\<exists>(sub, ns)\<in>set hamiltonians_init. \<exists>n\<in>set ns. \<exists>m.
                x = ImportError n (absolute_name sub) \<and>
                map_of (sys_modules t) (absolute_name sub) = Some m \<and>
                map_of (mod_dict m) n = None)) \<and>
         (\<forall>pre sub ns post s1 e w sib.
            hamiltonians_init = pre @ (sub, ns) # post \<longrightarrow>
            exec_imports env pre (new_package env s) = Inr s1 \<longrightarrow>
            \<not> cached s1 sub \<longrightarrow>
            find_and_load env (absolute_name sub) s1 = (Inl e, w, sib) \<longrightarrow>
            import_package env s =
              Inl (Raised e, (enter_siblings sub sib s1)\<lparr>world := w, pkg_loaded := False\<rparr>)) \<and>
         (\<forall>pre sub ns post s1 m n.
            hamiltonians_init = pre @ (sub, ns) # post \<longrightarrow>
            exec_imports env pre (new_package env s) = Inr s1 \<longrightarrow>
            (map_of (sys_modules s1) (absolute_name sub) = Some m \<or>
             (\<not> cached s1 sub \<and> fst (find_and_load env (absolute_name sub) s1) = Inr m)) \<longrightarrow>
            find (\<lambda>n. map_of (mod_dict m) n = None) ns = Some n \<longrightarrow>
            (\<exists>t. import_package env s = Inl (ImportError n (absolute_name sub), t))) \<and>
         ((\<forall>(sub, ns)\<in>set hamiltonians_init.
             \<forall>m. map_of (sys_modules s) (absolute_name sub) = Some m \<longrightarrow>
                 (\<forall>n\<in>set ns. map_of (mod_dict m) n \<noteq> None)) \<longrightarrow>
          (\<forall>a s' r w sib. find_and_load env a s' = (r, w, sib) \<longrightarrow>
             (\<forall>(sub, ns)\<in>set hamiltonians_init.
                (\<forall>m. (sub, m) \<in> set sib \<longrightarrow> (\<forall>n\<in>set ns. map_of (mod_dict m) n \<noteq> None)) \<and>
                (a = absolute_name sub \<longrightarrow>
                   (\<exists>m. r = Inr m \<and> (\<forall>n\<in>set ns. map_of (mod_dict m) n \<noteq> None))))) \<longrightarrow>
          (\<exists>t. import_package env s = Inr t))"
proof (intro conjI allI impI)
  fix x t
  assume "import_package env s = Inl (x, t)"
  with assms obtain t' where
    run: "exec_imports env hamiltonians_init (new_package env s) = Inl (x, t')"
    and t: "t = t'\<lparr>pkg_loaded := False\<rparr>"
    by (auto simp: import_package_Inl)
  from exec_imports_error [OF run] t
  show "(\<exists>sub\<in>set submodule_names. \<exists>e s'. x = Raised e \<and>
                fst (find_and_load env (absolute_name sub) s') = Inl e) \<or>
        (\<exists>(sub, ns)\<in>set hamiltonians_init. \<exists>n\<in>set ns. \<exists>m.
                x = ImportError n (absolute_name sub) \<and>
                map_of (sys_modules t) (absolute_name sub) = Some m \<and>
                map_of (mod_dict m) n = None)"
    by (simp add: submodule_names_def)
next
  fix pre sub ns post s1 e w sib
  assume split: "hamiltonians_init = pre @ (sub, ns) # post"
    and before: "exec_imports env pre (new_package env s) = Inr s1"
    and nc: "\<not> cached s1 sub"
    and raises: "find_and_load env (absolute_name sub) s1 = (Inl e, w, sib)"
  from import_package_stops [OF assms split before from_import_raises [OF nc raises]]
  show "import_package env s =
          Inl (Raised e, (enter_siblings sub sib s1)\<lparr>world := w, pkg_loaded := False\<rparr>)"
    by simp
next
  fix pre sub ns post s1 m n
  assume split: "hamiltonians_init = pre @ (sub, ns) # post"
    and before: "exec_imports env pre (new_package env s) = Inr s1"
    and resolves: "map_of (sys_modules s1) (absolute_name sub) = Some m \<or>
             (\<not> cached s1 sub \<and> fst (find_and_load env (absolute_name sub) s1) = Inr m)"
    and missing: "find (\<lambda>n. map_of (mod_dict m) n = None) ns = Some n"
  from from_import_first_missing [OF resolves missing] obtain t1 where
    "from_import env sub ns s1 = Inl (ImportError n (absolute_name sub), t1)" by blast
  from import_package_stops [OF assms split before this]
  show "\<exists>t. import_package env s = Inl (ImportError n (absolute_name sub), t)" by blast
next
  assume cachedok: "\<forall>(sub, ns)\<in>set hamiltonians_init.
             \<forall>m. map_of (sys_modules s) (absolute_name sub) = Some m \<longrightarrow>
                 (\<forall>n\<in>set ns. map_of (mod_dict m) n \<noteq> None)"
    and loadok: "\<forall>a s' r w sib. find_and_load env a s' = (r, w, sib) \<longrightarrow>
             (\<forall>(sub, ns)\<in>set hamiltonians_init.
                (\<forall>m. (sub, m) \<in> set sib \<longrightarrow> (\<forall>n\<in>set ns. map_of (mod_dict m) n \<noteq> None)) \<and>
                (a = absolute_name sub \<longrightarrow>
                   (\<exists>m. r = Inr m \<and> (\<forall>n\<in>set ns. map_of (mod_dict m) n \<noteq> None))))"
  from cachedok have "\<forall>(sub, ns)\<in>set hamiltonians_init.
             \<forall>m. map_of (sys_modules (new_package env s)) (absolute_name sub) = Some m \<longrightarrow>
                 (\<forall>n\<in>set ns. map_of (mod_dict m) n \<noteq> None)"
    by simp
  from exec_imports_succeeds [OF this loadok] assms
  show "\<exists>t. import_package env s = Inr t"
    by (auto simp: import_package_def exec_body_def)
qed

theorem failures_propagate_unchanged_witness:
  "\<not> pkg_loaded fresh_interp \<and>
   import_package broken_env fresh_interp = Inl (Raised ''boom'', failed_interp) \<and>
   (\<exists>sub\<in>set submodule_names. \<exists>s'.
      fst (find_and_load broken_env (absolute_name sub) s') = Inl ''boom'') \<and>
   hamiltonians_init =
     [(''_chemical_series'', [''make_atomic_ring'', ''make_atomic_lattice'', ''make_atom''])] @
     (''_hubbard'', [''fermi_hubbard'']) # drop 2 hamiltonians_init \<and>
   (\<exists>s1. exec_imports missing_env
            [(''_chemical_series'', [''make_atomic_ring'', ''make_atomic_lattice'', ''make_atom''])]
            (new_package missing_env fresh_interp) = Inr s1 \<and>
         \<not> cached s1 ''_hubbard'' \<and>
         fst (find_and_load missing_env (absolute_name ''_hubbard'') s1) =
           Inr \<lparr>mod_obj = 200, mod_dict = [(''up_index'', 201)]\<rparr>) \<and>
   find (\<lambda>n. map_of [(''up_index'', 201 :: nat)] n = None) [''fermi_hubbard''] =
     Some ''fermi_hubbard'' \<and>
   (\<exists>t. import_package missing_env fresh_interp =
          Inl (ImportError ''fermi_hubbard'' (absolute_name ''_hubbard''), t)) \<and>
   import_package missing_env fresh_interp =
     Inl (ImportError ''fermi_hubbard'' ''openfermion.hamiltonians._hubbard'', missing_interp)"
proof -
  let ?pre = "[(''_chemical_series'', [''make_atomic_ring'', ''make_atomic_lattice'', ''make_atom''])]"
  let ?m = "\<lparr>mod_obj = 200 :: nat, mod_dict = [(''up_index'', 201)]\<rparr>"
  have a: "\<not> pkg_loaded fresh_interp" by (simp add: fresh_interp_def)
  note inst = failures_propagate_unchanged [OF a]
  from inst [of broken_env, THEN conjunct1, rule_format, OF broken_run]
  have b: "\<exists>sub\<in>set submodule_names. \<exists>s'.
      fst (find_and_load broken_env (absolute_name sub) s') = Inl ''boom''"
    by auto
  have split: "hamiltonians_init = ?pre @ (''_hubbard'', [''fermi_hubbard'']) # drop 2 hamiltonians_init"
    by (simp add: hamiltonians_init_def)
  have "\<exists>s1. exec_imports missing_env ?pre (new_package missing_env fresh_interp) = Inr s1 \<and>
         \<not> cached s1 ''_hubbard''"
    by (simp add: run_defs)
  then obtain s1 where
    before: "exec_imports missing_env ?pre (new_package missing_env fresh_interp) = Inr s1"
    and nc: "\<not> cached s1 ''_hubbard''" by blast
  have load: "fst (find_and_load missing_env (absolute_name ''_hubbard'') s1) = Inr ?m"
    by (simp add: missing_env_def absolute_name_def package_name_def)
  have f: "find (\<lambda>n. map_of (mod_dict ?m) n = None) [''fermi_hubbard''] = Some ''fermi_hubbard''"
    by simp
  from nc load
  have resolves: "map_of (sys_modules s1) (absolute_name ''_hubbard'') = Some ?m \<or>
      (\<not> cached s1 ''_hubbard'' \<and>
       fst (find_and_load missing_env (absolute_name ''_hubbard'') s1) = Inr ?m)"
    by blast
  from inst [of missing_env, THEN conjunct2, THEN conjunct2, THEN conjunct1, rule_format,
      OF split before resolves f]
  have c: "\<exists>t. import_package missing_env fresh_interp =
          Inl (ImportError ''fermi_hubbard'' (absolute_name ''_hubbard''), t)" .
  from f have f': "find (\<lambda>n. map_of [(''up_index'', 201 :: nat)] n = None) [''fermi_hubbard''] =
     Some ''fermi_hubbard''" by simp
  from before nc load
  have d: "\<exists>s1. exec_imports missing_env ?pre (new_package missing_env fresh_interp) = Inr s1 \<and>
         \<not> cached s1 ''_hubbard'' \<and>
         fst (find_and_load missing_env (absolute_name ''_hubbard'') s1) = Inr ?m"
    by blast
  from a broken_run b split d f' c missing_run show ?thesis by blast
qed






text \<open>
  C8. A load that fails fails as a whole. If importing the package raises, the package has
  no entry in the module cache afterwards, so no importer gets hold of a namespace that
  is filled in part; if it returns, the package is in the module cache and every one of
  the 21 names is bound. And as nothing in the file handles exceptions, the first
  statement that raises ends the load with that exception.
\<close>

theorem failed_load_not_exposed:
  assumes "\<not> pkg_loaded s"
  shows "(\<forall>x t. import_package env s = Inl (x, t) \<longrightarrow> \<not> pkg_loaded t) \<and>
         (\<forall>t. import_package env s = Inr t \<longrightarrow>
            pkg_loaded t \<and> (\<forall>n\<in>set listed_names. map_of (pkg_dict t) n \<noteq> None)) \<and>
         (\<forall>pre sub ns post s1 x t1.
            hamiltonians_init = pre @ (sub, ns) # post \<longrightarrow>
            exec_imports env pre (new_package env s) = Inr s1 \<longrightarrow>
            from_import env sub ns s1 = Inl (x, t1) \<longrightarrow>
            import_package env s = Inl (x, t1\<lparr>pkg_loaded := False\<rparr>))"
proof (intro conjI allI impI)
  fix x t
  assume "import_package env s = Inl (x, t)"
  with assms show "\<not> pkg_loaded t" by (auto simp: import_package_Inl)
next
  fix t
  assume ok: "import_package env s = Inr t"
  then show "pkg_loaded t" by (rule import_package_loaded)
  show "\<forall>n\<in>set listed_names. map_of (pkg_dict t) n \<noteq> None"
  proof
    fix n
    assume "n \<in> set listed_names"
    then obtain sub ns where mem: "(sub, ns) \<in> set hamiltonians_init" and n: "n \<in> set ns"
      by (rule statement_of_listed)
    from import_package_bindings [OF assms ok mem] n
    show "map_of (pkg_dict t) n \<noteq> None" by auto
  qed
next
  fix pre sub ns post s1 x t1
  assume split: "hamiltonians_init = pre @ (sub, ns) # post"
    and before: "exec_imports env pre (new_package env s) = Inr s1"
    and fails: "from_import env sub ns s1 = Inl (x, t1)"
  from fails have "exec_imports env ((sub, ns) # post) s1 = Inl (x, t1)" by simp
  with before have "exec_imports env (pre @ (sub, ns) # post) (new_package env s) = Inl (x, t1)"
    by (simp add: exec_imports_append)
  with split assms show "import_package env s = Inl (x, t1\<lparr>pkg_loaded := False\<rparr>)"
    by (simp add: import_package_def exec_body_def)
qed

theorem failed_load_not_exposed_witness:
  "\<not> pkg_loaded fresh_interp \<and>
   import_package broken_env fresh_interp = Inl (Raised ''boom'', failed_interp) \<and>
   \<not> pkg_loaded failed_interp"
proof -
  have a: "\<not> pkg_loaded fresh_interp" by (simp add: fresh_interp_def)
  from failed_load_not_exposed [OF a, of broken_env] broken_run a show ?thesis by blast
qed

text \<open>
  C9. The bindings that a load produces are determined by the submodules alone. Take two
  loads, in any two environments and from any two interpreter states in which the package
  is not loaded, and suppose both succeed. If a new module starts with the same
  attributes in both, the same submodules were cached at the start in both, and the six
  submodule names resolve to the same modules in both, then the two package namespaces
  bind the same names, each to the same object. The worlds, the events recorded so far
  and the rest of the module caches may differ.
\<close>

theorem bindings_determined_by_submodules:
  assumes "\<not> pkg_loaded s1" and "\<not> pkg_loaded s2"
    and "import_package env1 s1 = Inr t1" and "import_package env2 s2 = Inr t2"
    and "module_attr env1 = module_attr env2"
    and "\<forall>sub\<in>set submodule_names. cached s1 sub = cached s2 sub"
    and "\<forall>sub\<in>set submodule_names.
           map_of (sys_modules t1) (absolute_name sub) = map_of (sys_modules t2) (absolute_name sub)"
  shows "map_of (pkg_dict t1) = map_of (pkg_dict t2)"
proof
  fix k
  from assms(5) have start: "new_module_dict env1 = new_module_dict env2"
    by (simp add: new_module_dict_def)
  consider (listed) "k \<in> set listed_names" | (submodule) "k \<in> set submodule_names"
    | (other) "k \<notin> set submodule_names" "k \<notin> set listed_names"
    by blast
  then show "map_of (pkg_dict t1) k = map_of (pkg_dict t2) k"
  proof cases
    case listed
    then obtain sub ns where mem: "(sub, ns) \<in> set hamiltonians_init" and k: "k \<in> set ns"
      by (rule statement_of_listed)
    from import_package_bindings [OF assms(1,3) mem] k obtain m1 where
      m1: "map_of (sys_modules t1) (absolute_name sub) = Some m1"
          "map_of (pkg_dict t1) k = map_of (mod_dict m1) k" by blast
    from import_package_bindings [OF assms(2,4) mem] k obtain m2 where
      m2: "map_of (sys_modules t2) (absolute_name sub) = Some m2"
          "map_of (pkg_dict t2) k = map_of (mod_dict m2) k" by blast
    from mem have "sub \<in> set submodule_names" by (rule submodule_of_statement)
    with assms(7) m1(1) m2(1) have "m1 = m2" by simp
    with m1(2) m2(2) show ?thesis by simp
  next
    case submodule
    show ?thesis
    proof (cases "cached s1 k")
      case True
      with assms(6) submodule have "cached s2 k" by simp
      from import_package_cached_attr [OF assms(1,3) submodule True]
        import_package_cached_attr [OF assms(2,4) submodule this]
      show ?thesis by simp
    next
      case False
      with assms(6) submodule have "\<not> cached s2 k" by simp
      from import_package_fresh_attr [OF assms(2,4) submodule this] obtain m2 where
        m2: "map_of (sys_modules t2) (absolute_name k) = Some m2"
            "map_of (pkg_dict t2) k = Some (mod_obj m2)" by blast
      from import_package_fresh_attr [OF assms(1,3) submodule False] obtain m1 where
        m1: "map_of (sys_modules t1) (absolute_name k) = Some m1"
            "map_of (pkg_dict t1) k = Some (mod_obj m1)" by blast
      from assms(7) submodule m1(1) m2(1) have "m1 = m2" by simp
      with m1(2) m2(2) show ?thesis by simp
    qed
  next
    case other
    from import_package_untouched [OF assms(1,3) other]
      import_package_untouched [OF assms(2,4) other] start
    show ?thesis by simp
  qed
qed

theorem bindings_determined_by_submodules_witness:
  "\<not> pkg_loaded fresh_interp \<and> \<not> pkg_loaded other_interp \<and>
   import_package example_env fresh_interp = Inr example_loaded \<and>
   import_package example_env other_interp = Inr other_loaded \<and>
   module_attr example_env = module_attr example_env \<and>
   sys_modules fresh_interp = sys_modules other_interp \<and>
   sys_modules example_loaded = sys_modules other_loaded \<and>
   world example_loaded \<noteq> world other_loaded \<and>
   map_of (pkg_dict example_loaded) = map_of (pkg_dict other_loaded)"
proof -
  have a: "\<not> pkg_loaded fresh_interp" by (simp add: fresh_interp_def)
  have b: "\<not> pkg_loaded other_interp" by (simp add: other_interp_def)
  have c: "\<forall>sub\<in>set submodule_names. cached fresh_interp sub = cached other_interp sub"
    by (simp add: cached_def fresh_interp_def other_interp_def)
  have g: "sys_modules example_loaded = sys_modules other_loaded"
    by (simp add: example_loaded_def other_loaded_def)
  have d: "\<forall>sub\<in>set submodule_names.
      map_of (sys_modules example_loaded) (absolute_name sub) =
      map_of (sys_modules other_loaded) (absolute_name sub)"
    by (simp only: g) simp
  have e: "world example_loaded \<noteq> world other_loaded"
    by (simp add: example_loaded_def other_loaded_def)
  have f: "sys_modules fresh_interp = sys_modules other_interp"
    by (simp add: fresh_interp_def other_interp_def)
  from bindings_determined_by_submodules [OF a b example_run other_run refl c d]
    a b e f g example_run other_run
  show ?thesis by blast
qed




end
